theory Spec2Isabelle
  imports Complex_Main "HOL-Library.Multiset"
begin

section \<open>Railway ticket office: pricing, availability and reports\<close>

text \<open>
  A shallow embedding of \<^verbatim>\<open>tickets/models.py\<close> and \<^verbatim>\<open>tickets/repositories.py\<close>.
  Model instances are records, the relational store is a record of tables (lists of
  rows), every \<^verbatim>\<open>raise\<close> is an \<open>Inl\<close> of the result type, and the reports are
  computed as the store computes them, with its numbers and in the order of its keys.
\<close>

subsection \<open>Python's \<^verbatim>\<open>Decimal\<close> under the default context\<close>

text \<open>
  A finite \<^verbatim>\<open>Decimal\<close> is a signed coefficient and an exponent: \<^verbatim>\<open>Decimal('0.5')\<close> is
  coefficient 5, exponent -1, and \<^verbatim>\<open>Decimal('1.0')\<close> is coefficient 10, exponent -1. The
  sign is folded into the integer coefficient, so a negative zero is not told apart
  from zero (both are falsy and equal in value). NaN and the infinities are not
  modelled: a \<^verbatim>\<open>DecimalField\<close> rejects them.
\<close>

record decimal =
  coeff :: int
  expo :: int

datatype issue =
    Blank string
  | Invalid string
  | MaxDigits string
  | MaxDecimalPlaces string
  | MaxWholeDigits string
  | MaxLength string
  | NoSeats string string nat

datatype error =
    RelatedObjectDoesNotExist
  | Overflow
  | InvalidOperation
  | DivisionByZero
  | ValidationError "issue list"

definition dec_val :: "decimal \<Rightarrow> rat" where
  "dec_val d =
     (if 0 \<le> expo d then of_int (coeff d * 10 ^ nat (expo d))
      else of_int (coeff d) / of_int (10 ^ nat (- expo d)))"

definition dec_of_int :: "int \<Rightarrow> decimal" where
  \<comment> \<open>\<^verbatim>\<open>Decimal(n)\<close> for a Python int: exact, exponent 0.\<close>
  "dec_of_int n = \<lparr>coeff = n, expo = 0\<rparr>"

definition dec_truthy :: "decimal \<Rightarrow> bool" where
  \<comment> \<open>\<^verbatim>\<open>bool(d)\<close>: a Decimal is falsy exactly when it is zero.\<close>
  "dec_truthy d = (coeff d \<noteq> 0)"

definition prec :: int where "prec = 28"
definition Emax :: int where "Emax = 999999"
definition Emin :: int where "Emin = - 999999"
definition Etiny :: int where "Etiny = Emin - prec + 1"
definition Etop :: int where "Etop = Emax - prec + 1"

fun ndigits :: "nat \<Rightarrow> nat" where
  \<comment> \<open>\<^verbatim>\<open>len(str(n))\<close>: the number of decimal digits of the coefficient.\<close>
  "ndigits n = (if n < 10 then 1 else Suc (ndigits (n div 10)))"

declare ndigits.simps [simp del]

definition round_half_even_div :: "int \<Rightarrow> int \<Rightarrow> int" where
  \<comment> \<open>\<open>c / m\<close> rounded to the nearest integer, ties to the even one (\<open>0 < m\<close>).\<close>
  "round_half_even_div c m =
     (let q = c div m; r = c mod m
      in if 2 * r < m then q
         else if 2 * r > m then q + 1
         else if even q then q else q + 1)"

definition dec_fix :: "decimal \<Rightarrow> error + decimal" where
  \<comment> \<open>The context's rounding of a result to \<open>prec\<close> significant digits, with the
      exponent limits; \<^verbatim>\<open>Overflow\<close> is trapped, that is, raised.\<close>
  "dec_fix d =
     (if coeff d = 0 then Inr \<lparr>coeff = 0, expo = min (max (expo d) Etiny) Emax\<rparr>
      else
        let exp_min0 = int (ndigits (nat \<bar>coeff d\<bar>)) + expo d - prec
        in if exp_min0 > Etop then Inl Overflow
           else
             let exp_min = (if exp_min0 < Etiny then Etiny else exp_min0)
             in if expo d < exp_min then
                  let c = round_half_even_div (coeff d) (10 ^ nat (exp_min - expo d));
                      carry = (prec < int (ndigits (nat \<bar>c\<bar>)));
                      c' = (if carry then c div 10 else c);
                      e' = (if carry then exp_min + 1 else exp_min)
                  in if e' > Etop then Inl Overflow else Inr \<lparr>coeff = c', expo = e'\<rparr>
                else Inr d)"

definition dec_mul :: "decimal \<Rightarrow> decimal \<Rightarrow> error + decimal" where
  "dec_mul a b = dec_fix \<lparr>coeff = coeff a * coeff b, expo = expo a + expo b\<rparr>"

definition dec_add :: "decimal \<Rightarrow> decimal \<Rightarrow> error + decimal" where
  \<comment> \<open>Both operands are brought to the smaller exponent and the coefficients added.
      (Python shortcuts a zero operand and exponents more than \<open>prec\<close> apart; neither
      arises in \<^verbatim>\<open>1 + TAX\<close>, the only sum of the program.)\<close>
  "dec_add a b =
     (let e = min (expo a) (expo b)
      in dec_fix \<lparr>coeff = coeff a * 10 ^ nat (expo a - e) + coeff b * 10 ^ nat (expo b - e),
                  expo = e\<rparr>)"

definition dec_rescale :: "decimal \<Rightarrow> int \<Rightarrow> decimal" where
  "dec_rescale d e =
     (if coeff d = 0 then \<lparr>coeff = 0, expo = e\<rparr>
      else if e \<le> expo d then \<lparr>coeff = coeff d * 10 ^ nat (expo d - e), expo = e\<rparr>
      else \<lparr>coeff = round_half_even_div (coeff d) (10 ^ nat (e - expo d)), expo = e\<rparr>)"

definition dec_quantize :: "decimal \<Rightarrow> int \<Rightarrow> error + decimal" where
  \<comment> \<open>\<^verbatim>\<open>d.quantize(Decimal((0, (1,), e)))\<close> with ROUND_HALF_EVEN.\<close>
  "dec_quantize d e =
     (if \<not> (Etiny \<le> e \<and> e \<le> Emax) then Inl InvalidOperation
      else if coeff d = 0 then dec_fix \<lparr>coeff = 0, expo = e\<rparr>
      else
        let adjusted = int (ndigits (nat \<bar>coeff d\<bar>)) + expo d - 1
        in if adjusted > Emax then Inl InvalidOperation
           else if adjusted - e + 1 > prec then Inl InvalidOperation
           else
             let ans = dec_rescale d e;
                 len = int (ndigits (nat \<bar>coeff ans\<bar>))
             in if len + expo ans - 1 > Emax then Inl InvalidOperation
                else if len > prec then Inl InvalidOperation
                else dec_fix ans)"

definition dec_round :: "decimal \<Rightarrow> nat \<Rightarrow> error + decimal" where
  \<comment> \<open>\<^verbatim>\<open>round(d, n)\<close> is \<^verbatim>\<open>d.quantize(Decimal('1e-n'))\<close>.\<close>
  "dec_round d n = dec_quantize d (- int n)"

subsection \<open>Model instances and the store\<close>

record passenger =
  passenger_pk :: nat
  passenger_first_name :: string
  passenger_last_name :: string
  passenger_passport :: string
  passenger_age :: nat

record cashier =
  cashier_pk :: nat
  cashier_first_name :: string
  cashier_last_name :: string
  cashier_hire_date :: int

record trip =
  trip_pk :: nat
  trip_start_station :: string
  trip_end_station :: string
  trip_distance_km :: nat
  trip_number :: string
  trip_train_type :: string
  trip_departure :: int
  trip_arrival :: int
  trip_price :: nat
  trip_capacity :: nat

text \<open>
  A \<^verbatim>\<open>Ticket\<close> instance. \<open>ticket_pk = None\<close> is an instance that was never saved; an
  instance with \<open>ticket_pk = Some k\<close> stands for one loaded from the store, or for one
  made with a key that no row has. The
  references are kept as the keys they hold (\<^verbatim>\<open>passenger_id\<close>, \<^verbatim>\<open>trip_id\<close>, \<^verbatim>\<open>cashier_id\<close>) and
  \<^verbatim>\<open>self.trip\<close>, \<^verbatim>\<open>self.passenger\<close> are looked up in the store. \<open>ticket_base_price = None\<close>
  is an unset base price.
\<close>

record ticket =
  ticket_pk :: "nat option"
  ticket_passenger_id :: nat
  ticket_cashier_id :: "nat option"
  ticket_trip_id :: nat
  ticket_purchase_date :: "int option"
  ticket_base_price :: "decimal option"
  ticket_payment_method :: "string option"
  ticket_paid_amount :: decimal

record db =
  passengers :: "passenger list"
  cashiers :: "cashier list"
  trips :: "trip list"
  tickets :: "ticket list"

subsection \<open>\<^verbatim>\<open>Ticket.calculate_discount\<close>\<close>

text \<open>
  The class body defines \<^verbatim>\<open>calculate_discount\<close> twice; the second definition, with
  \<^verbatim>\<open>Decimal\<close> results, replaces the first and is the one modelled.
\<close>

definition calculate_discount :: "int \<Rightarrow> decimal" where
  "calculate_discount age =
     (if age < 18 then \<lparr>coeff = 5, expo = - 1\<rparr>
      else if age > 60 then \<lparr>coeff = 7, expo = - 1\<rparr>
      else \<lparr>coeff = 10, expo = - 1\<rparr>)"

subsection \<open>Related objects and \<^verbatim>\<open>BaseRepository.get_by_id\<close>\<close>

definition and_then :: "'e + 'a \<Rightarrow> ('a \<Rightarrow> 'e + 'b) \<Rightarrow> 'e + 'b" where
  \<comment> \<open>Sequencing of statements that may raise.\<close>
  "and_then m f = (case m of Inl e \<Rightarrow> Inl e | Inr x \<Rightarrow> f x)"

definition get_by_id :: "('r \<Rightarrow> nat) \<Rightarrow> 'r list \<Rightarrow> nat \<Rightarrow> 'r option" where
  "get_by_id pk rows k = find (\<lambda>r. pk r = k) rows"

definition ticket_by_id :: "db \<Rightarrow> nat \<Rightarrow> ticket option" where
  "ticket_by_id s k = find (\<lambda>r. ticket_pk r = Some k) (tickets s)"

definition related_trip :: "db \<Rightarrow> ticket \<Rightarrow> error + trip" where
  \<comment> \<open>\<^verbatim>\<open>self.trip\<close>\<close>
  "related_trip s t =
     (case get_by_id trip_pk (trips s) (ticket_trip_id t) of
        None \<Rightarrow> Inl RelatedObjectDoesNotExist
      | Some tr \<Rightarrow> Inr tr)"

definition related_passenger :: "db \<Rightarrow> ticket \<Rightarrow> error + passenger" where
  \<comment> \<open>\<^verbatim>\<open>self.passenger\<close>\<close>
  "related_passenger s t =
     (case get_by_id passenger_pk (passengers s) (ticket_passenger_id t) of
        None \<Rightarrow> Inl RelatedObjectDoesNotExist
      | Some p \<Rightarrow> Inr p)"

subsection \<open>\<^verbatim>\<open>Trip.available_seats\<close>\<close>

definition tickets_of_trip :: "db \<Rightarrow> nat \<Rightarrow> ticket list" where
  \<comment> \<open>the reverse relation \<^verbatim>\<open>trip.tickets\<close>\<close>
  "tickets_of_trip s k = filter (\<lambda>t. ticket_trip_id t = k) (tickets s)"

definition available_seats :: "db \<Rightarrow> trip \<Rightarrow> int" where
  "available_seats s tr =
     (let sold_count = length (tickets_of_trip s (trip_pk tr))
      in int (trip_capacity tr) - int sold_count)"

subsection \<open>\<^verbatim>\<open>Ticket.price\<close>\<close>

definition TAX :: decimal where
  "TAX = \<lparr>coeff = 2, expo = - 1\<rparr>"

definition base_truthy :: "decimal option \<Rightarrow> bool" where
  \<comment> \<open>\<^verbatim>\<open>if self.base_price:\<close> holds for a base price that is set and not zero.\<close>
  "base_truthy b = (case b of None \<Rightarrow> False | Some d \<Rightarrow> dec_truthy d)"

definition current_base :: "db \<Rightarrow> ticket \<Rightarrow> error + decimal" where
  \<comment> \<open>step 1 of \<^verbatim>\<open>price\<close>\<close>
  "current_base s t =
     (case ticket_base_price t of
        Some b \<Rightarrow>
          if dec_truthy b then Inr b
          else and_then (related_trip s t) (\<lambda>tr. Inr (dec_of_int (int (trip_price tr))))
      | None \<Rightarrow> and_then (related_trip s t) (\<lambda>tr. Inr (dec_of_int (int (trip_price tr)))))"

definition raw_price :: "decimal \<Rightarrow> decimal \<Rightarrow> error + decimal" where
  \<comment> \<open>step 3 of \<^verbatim>\<open>price\<close>: \<^verbatim>\<open>current_base * discount * (1 + self.TAX)\<close>, left to right\<close>
  "raw_price base discount =
     and_then (dec_mul base discount) (\<lambda>x.
     and_then (dec_add (dec_of_int 1) TAX) (\<lambda>y.
     dec_mul x y))"

definition price :: "db \<Rightarrow> ticket \<Rightarrow> error + decimal" where
  "price s t =
     and_then (current_base s t) (\<lambda>base.
     and_then (related_passenger s t) (\<lambda>p.
     and_then (raw_price base (calculate_discount (int (passenger_age p)))) (\<lambda>raw.
     dec_round raw 2)))"

subsection \<open>Validation: \<^verbatim>\<open>full_clean\<close> and \<^verbatim>\<open>Ticket.clean\<close>\<close>

text \<open>
  \<^verbatim>\<open>full_clean\<close> validates every field as its declaration demands, then calls
  \<^verbatim>\<open>clean\<close>, and raises one \<^verbatim>\<open>ValidationError\<close> holding everything that was found.
  An exception of \<^verbatim>\<open>clean\<close> that is not a \<^verbatim>\<open>ValidationError\<close> passes through.
\<close>

definition decimal_validator :: "int \<Rightarrow> int \<Rightarrow> string \<Rightarrow> decimal \<Rightarrow> issue list" where
  \<comment> \<open>\<^verbatim>\<open>DecimalField(max_digits=md, decimal_places=dp)\<close>\<close>
  "decimal_validator md dp f d =
     (let len = int (ndigits (nat \<bar>coeff d\<bar>));
          digits = (if 0 \<le> expo d then (if coeff d \<noteq> 0 then len + expo d else len)
                    else if len < - expo d then - expo d else len);
          decimals = (if 0 \<le> expo d then 0 else - expo d);
          whole_digits = digits - decimals
      in if md < digits then [MaxDigits f]
         else if dp < decimals then [MaxDecimalPlaces f]
         else if md - dp < whole_digits then [MaxWholeDigits f]
         else [])"

definition foreign_key :: "string \<Rightarrow> nat list \<Rightarrow> nat option \<Rightarrow> issue list" where
  \<comment> \<open>a \<^verbatim>\<open>ForeignKey\<close> without \<^verbatim>\<open>blank=True\<close>: it must be set and its row must exist\<close>
  "foreign_key f pks v =
     (case v of None \<Rightarrow> [Blank f]
      | Some k \<Rightarrow> if k \<in> set pks then [] else [Invalid f])"

definition clean_fields :: "db \<Rightarrow> ticket \<Rightarrow> issue list" where
  "clean_fields s t =
     foreign_key ''passenger'' (map passenger_pk (passengers s)) (Some (ticket_passenger_id t))
     @ foreign_key ''cashier'' (map cashier_pk (cashiers s)) (ticket_cashier_id t)
     @ foreign_key ''trip'' (map trip_pk (trips s)) (Some (ticket_trip_id t))
     @ (case ticket_base_price t of None \<Rightarrow> []
        | Some b \<Rightarrow> decimal_validator 10 2 ''base_price'' b)
     @ (case ticket_payment_method t of None \<Rightarrow> []
        | Some m \<Rightarrow> if m \<noteq> [] \<and> 50 < length m then [MaxLength ''payment_method''] else [])
     @ decimal_validator 10 2 ''paid_amount'' (ticket_paid_amount t)"

definition clean :: "db \<Rightarrow> ticket \<Rightarrow> error + unit" where
  \<comment> \<open>The message of the error is built from \<^verbatim>\<open>str(self.trip)\<close>, which prints the two
      stations and the distance of the trip.\<close>
  "clean s t =
     (if ticket_pk t = None then
        and_then (related_trip s t) (\<lambda>tr.
          if available_seats s tr \<le> 0 then
            Inl (ValidationError
                  [NoSeats (trip_start_station tr) (trip_end_station tr) (trip_distance_km tr)])
          else Inr ())
      else Inr ())"

definition full_clean :: "db \<Rightarrow> ticket \<Rightarrow> error + unit" where
  "full_clean s t =
     (let errors = clean_fields s t
      in case clean s t of
           Inr u \<Rightarrow> if errors = [] then Inr () else Inl (ValidationError errors)
         | Inl e \<Rightarrow>
             (case e of ValidationError es \<Rightarrow> Inl (ValidationError (errors @ es))
              | _ \<Rightarrow> Inl e))"

subsection \<open>\<^verbatim>\<open>Ticket.save\<close>\<close>

definition fresh_pk :: "ticket list \<Rightarrow> nat" where
  \<comment> \<open>The key the store gives to a new row: one not in use. (The store counts on from
      the largest key it ever gave, also when that row is gone; which unused key a row
      gets plays no part below.)\<close>
  "fresh_pk rows =
     Suc (fold max (map (\<lambda>r. case ticket_pk r of None \<Rightarrow> 0 | Some k \<Rightarrow> k) rows) 0)"

definition model_save :: "int \<Rightarrow> db \<Rightarrow> ticket \<Rightarrow> db \<times> ticket" where
  \<comment> \<open>\<^verbatim>\<open>super().save()\<close>: an instance without key is inserted, \<^verbatim>\<open>purchase_date\<close>
      (\<^verbatim>\<open>auto_now_add\<close>) set to the time of the call; an instance with a key replaces its
      row, and is inserted under that key when there is no such row.\<close>
  "model_save now s t =
     (case ticket_pk t of
        None \<Rightarrow>
          let t' = t\<lparr>ticket_pk := Some (fresh_pk (tickets s)), ticket_purchase_date := Some now\<rparr>
          in (s\<lparr>tickets := tickets s @ [t']\<rparr>, t')
      | Some k \<Rightarrow>
          if list_ex (\<lambda>r. ticket_pk r = Some k) (tickets s) then
            (s\<lparr>tickets := map (\<lambda>r. if ticket_pk r = Some k then t else r) (tickets s)\<rparr>, t)
          else
            let t' = t\<lparr>ticket_purchase_date := Some now\<rparr>
            in (s\<lparr>tickets := tickets s @ [t']\<rparr>, t'))"

definition save :: "int \<Rightarrow> db \<Rightarrow> ticket \<Rightarrow> error + db \<times> ticket" where
  "save now s t =
     and_then
       (if \<not> base_truthy (ticket_base_price t) then
          and_then (related_trip s t) (\<lambda>tr.
            Inr (t\<lparr>ticket_base_price := Some (dec_of_int (int (trip_price tr)))\<rparr>))
        else Inr t) (\<lambda>t1.
     and_then (price s t1) (\<lambda>p.
     let t2 = t1\<lparr>ticket_paid_amount := p\<rparr>
     in and_then (full_clean s t2) (\<lambda>u.
     Inr (model_save now s t2))))"

subsection \<open>\<^verbatim>\<open>BaseRepository\<close>: add, update, delete\<close>

text \<open>
  \<^verbatim>\<open>update\<close> fetches the row, sets the given attributes (the function \<open>f\<close>) and calls
  the instance's \<^verbatim>\<open>save\<close>: Django's own for passengers and trips, \<^verbatim>\<open>Ticket.save\<close> for
  tickets. \<^verbatim>\<open>delete\<close> follows each reference's \<^verbatim>\<open>on_delete\<close>: \<^verbatim>\<open>CASCADE\<close> from a ticket to
  its passenger and its trip, \<^verbatim>\<open>SET_NULL\<close> to its cashier.
\<close>

definition store_row :: "('r \<Rightarrow> nat) \<Rightarrow> 'r list \<Rightarrow> 'r \<Rightarrow> 'r list" where
  "store_row pk rows obj =
     (if list_ex (\<lambda>r. pk r = pk obj) rows
      then map (\<lambda>r. if pk r = pk obj then obj else r) rows
      else rows @ [obj])"

definition add_ticket :: "int \<Rightarrow> db \<Rightarrow> ticket \<Rightarrow> error + db \<times> ticket" where
  "add_ticket now s t = save now s t"

definition update_ticket ::
  "int \<Rightarrow> db \<Rightarrow> nat \<Rightarrow> (ticket \<Rightarrow> ticket) \<Rightarrow> error + db \<times> ticket option" where
  "update_ticket now s k f =
     (case ticket_by_id s k of
        None \<Rightarrow> Inr (s, None)
      | Some obj \<Rightarrow> and_then (save now s (f obj)) (\<lambda>(s', t'). Inr (s', Some t')))"

definition update_passenger ::
  "db \<Rightarrow> nat \<Rightarrow> (passenger \<Rightarrow> passenger) \<Rightarrow> db \<times> passenger option" where
  "update_passenger s k f =
     (case get_by_id passenger_pk (passengers s) k of
        None \<Rightarrow> (s, None)
      | Some obj \<Rightarrow>
          (s\<lparr>passengers := store_row passenger_pk (passengers s) (f obj)\<rparr>, Some (f obj)))"

definition update_trip :: "db \<Rightarrow> nat \<Rightarrow> (trip \<Rightarrow> trip) \<Rightarrow> db \<times> trip option" where
  "update_trip s k f =
     (case get_by_id trip_pk (trips s) k of
        None \<Rightarrow> (s, None)
      | Some obj \<Rightarrow> (s\<lparr>trips := store_row trip_pk (trips s) (f obj)\<rparr>, Some (f obj)))"

definition delete_passenger :: "db \<Rightarrow> nat \<Rightarrow> db \<times> bool" where
  "delete_passenger s k =
     (case get_by_id passenger_pk (passengers s) k of
        None \<Rightarrow> (s, False)
      | Some obj \<Rightarrow>
          (s\<lparr>tickets := filter (\<lambda>t. ticket_passenger_id t \<noteq> k) (tickets s),
             passengers := filter (\<lambda>p. passenger_pk p \<noteq> k) (passengers s)\<rparr>, True))"

definition delete_cashier :: "db \<Rightarrow> nat \<Rightarrow> db \<times> bool" where
  "delete_cashier s k =
     (case get_by_id cashier_pk (cashiers s) k of
        None \<Rightarrow> (s, False)
      | Some obj \<Rightarrow>
          (s\<lparr>tickets := map (\<lambda>t. if ticket_cashier_id t = Some k
                                   then t\<lparr>ticket_cashier_id := None\<rparr> else t) (tickets s),
             cashiers := filter (\<lambda>c. cashier_pk c \<noteq> k) (cashiers s)\<rparr>, True))"

subsection \<open>The numbers of the store\<close>

text \<open>
  The reports of \<^verbatim>\<open>get_complex_analytics\<close> are computed by the store, not by Python, and
  the model follows SQLite, the store Django is set up with by default. There a
  \<^verbatim>\<open>DecimalField\<close> is a column of numeric affinity: the decimal is handed over as text and
  kept as an integer when it is a whole number and as a binary floating point number of
  64 bits (a double) otherwise. A double is a signed mantissa and a binary exponent, and
  every operation gives the double nearest to the exact result, ties to the even
  mantissa, with 53 significant bits. Numbers at or beyond \<open>2 ^ 1024\<close>, where a double
  overflows, are not modelled: amounts of at most 10 digits, counts of rows and
  capacities are far away from them.
\<close>

record double =
  mant :: int
  bexp :: int

definition double_val :: "double \<Rightarrow> rat" where
  "double_val x =
     (if 0 \<le> bexp x then of_int (mant x * 2 ^ nat (bexp x))
      else of_int (mant x) / of_int (2 ^ nat (- bexp x)))"

fun bit_length :: "nat \<Rightarrow> nat" where
  "bit_length n = (if n = 0 then 0 else Suc (bit_length (n div 2)))"

declare bit_length.simps [simp del]

definition binade :: "int \<Rightarrow> int \<Rightarrow> int" where
  \<comment> \<open>the \<open>e\<close> with \<open>2 ^ e \<le> n / d < 2 ^ (e + 1)\<close>, for \<open>0 < n\<close> and \<open>0 < d\<close>\<close>
  "binade n d =
     (let k = int (bit_length (nat n)) - int (bit_length (nat d))
      in if (if 0 \<le> k then d * 2 ^ nat k \<le> n else d \<le> n * 2 ^ nat (- k)) then k else k - 1)"

definition round_to_double :: "int \<Rightarrow> int \<Rightarrow> double" where
  \<comment> \<open>The double nearest to \<open>n / d\<close> (\<open>0 < d\<close>): the quotient is scaled to 53 bits and
      rounded half to even; below \<open>2 ^ - 1022\<close> the exponent stays (subnormal numbers).\<close>
  "round_to_double n d =
     (if n = 0 then \<lparr>mant = 0, bexp = 0\<rparr>
      else
        let e = max (binade \<bar>n\<bar> d) (- 1022); sh = 52 - e
        in \<lparr>mant = (if 0 \<le> sh then round_half_even_div (n * 2 ^ nat sh) d
                    else round_half_even_div n (d * 2 ^ nat (- sh))),
            bexp = - sh\<rparr>)"

definition double_of_int :: "int \<Rightarrow> double" where
  "double_of_int n = round_to_double n 1"

definition double_of_scaled :: "int \<Rightarrow> int \<Rightarrow> double" where
  \<comment> \<open>the double nearest to \<open>n * 2 ^ e\<close>\<close>
  "double_of_scaled n e =
     (if 0 \<le> e then round_to_double (n * 2 ^ nat e) 1 else round_to_double n (2 ^ nat (- e)))"

definition double_add :: "double \<Rightarrow> double \<Rightarrow> double" where
  "double_add x y =
     (let e = min (bexp x) (bexp y)
      in double_of_scaled (mant x * 2 ^ nat (bexp x - e) + mant y * 2 ^ nat (bexp y - e)) e)"

definition double_mul :: "double \<Rightarrow> double \<Rightarrow> double" where
  "double_mul x y = double_of_scaled (mant x * mant y) (bexp x + bexp y)"

definition double_div :: "double \<Rightarrow> double \<Rightarrow> double" where
  \<comment> \<open>for a divisor that is not zero\<close>
  "double_div x y =
     (let n = mant x * sgn (mant y); d = \<bar>mant y\<bar>; e = bexp x - bexp y
      in if 0 \<le> e then round_to_double (n * 2 ^ nat e) d
         else round_to_double n (d * 2 ^ nat (- e)))"

definition double_of_decimal :: "decimal \<Rightarrow> double" where
  "double_of_decimal d =
     (if 0 \<le> expo d then round_to_double (coeff d * 10 ^ nat (expo d)) 1
      else round_to_double (coeff d) (10 ^ nat (- expo d)))"

datatype sql_number = SqlInt int | SqlReal double


fun is_int :: "sql_number \<Rightarrow> bool" where
  "is_int (SqlInt n) = True"
| "is_int (SqlReal x) = False"

fun int_of :: "sql_number \<Rightarrow> int" where
  "int_of (SqlInt n) = n"
| "int_of (SqlReal x) = 0"

fun as_real :: "sql_number \<Rightarrow> double" where
  "as_real (SqlInt n) = double_of_int n"
| "as_real (SqlReal x) = x"

definition stored_decimal :: "decimal \<Rightarrow> sql_number" where
  \<comment> \<open>what a column of numeric affinity keeps of a decimal\<close>
  "stored_decimal d =
     (if 0 \<le> expo d then SqlInt (coeff d * 10 ^ nat (expo d))
      else if coeff d mod 10 ^ nat (- expo d) = 0 then SqlInt (coeff d div 10 ^ nat (- expo d))
      else SqlReal (double_of_decimal d))"




subsection \<open>The aggregate queries of \<^verbatim>\<open>get_complex_analytics\<close>\<close>

text \<open>
  \<^verbatim>\<open>Model.objects.annotate(...)\<close> over a reverse relation is a left outer join of the
  model's table with the tickets, grouped by the model's row, with one aggregate per
  annotation. The store reads a table in the order of its keys (\<open>scan\<close>). \<^verbatim>\<open>Count\<close> counts
  the joined rows that are there. \<^verbatim>\<open>Sum\<close> skips nulls and is null when nothing is left;
  it adds integers exactly, and, once one of the values is a double, it adds all of them
  as doubles, from the first to the last, each sum rounded.

  \<^verbatim>\<open>order_by('-key')\<close> is first a relation between the rows and the answers a store may
  give: any arrangement of the rows that descends by the key. The queries name no second
  key, and whether nulls come first or last under a descending order depends on the
  store (the parameter \<open>nulls_first\<close>; SQLite puts them last). \<open>sort_desc\<close> is the
  arrangement that keeps rows with equal keys in the order in which they were read, which
  is what SQLite returns.
\<close>

definition scan :: "('r \<Rightarrow> nat) \<Rightarrow> 'r list \<Rightarrow> 'r list" where
  \<comment> \<open>the rows of a table as the store reads them: by ascending key\<close>
  "scan pk rows = sort_key pk rows"

definition ticket_key :: "ticket \<Rightarrow> nat" where
  \<comment> \<open>every row of the table has a key\<close>
  "ticket_key t = (case ticket_pk t of None \<Rightarrow> 0 | Some k \<Rightarrow> k)"

definition join_rows :: "('a \<Rightarrow> nat) \<Rightarrow> ('b \<Rightarrow> nat) \<Rightarrow> 'b list \<Rightarrow> 'a \<Rightarrow> ('a \<times> 'b option) list" where
  \<comment> \<open>the joined rows of one row \<open>a\<close>: one for each row of \<open>bs\<close> that references it, and
      one with nulls when there is none\<close>
  "join_rows pk fk bs a =
     (let ms = filter (\<lambda>b. fk b = pk a) bs
      in if ms = [] then [(a, None)] else map (\<lambda>b. (a, Some b)) ms)"

definition left_join :: "('a \<Rightarrow> nat) \<Rightarrow> ('b \<Rightarrow> nat) \<Rightarrow> 'a list \<Rightarrow> 'b list \<Rightarrow> ('a \<times> 'b option) list" where
  "left_join pk fk as bs = concat (map (join_rows pk fk bs) as)"

definition group_by :: "('r \<Rightarrow> 'k) \<Rightarrow> 'r list \<Rightarrow> ('k \<times> 'r list) list" where
  \<comment> \<open>\<^verbatim>\<open>GROUP BY\<close>: one group for each value of the key, holding the rows that have it\<close>
  "group_by key rows = map (\<lambda>k. (k, filter (\<lambda>r. key r = k) rows)) (remdups (map key rows))"

definition sql_sum :: "sql_number option list \<Rightarrow> sql_number option" where
  "sql_sum vs =
     (let xs = List.map_filter id vs
      in if xs = [] then None
         else if list_all is_int xs then Some (SqlInt (sum_list (map int_of xs)))
         else Some (SqlReal (foldl double_add \<lparr>mant = 0, bexp = 0\<rparr> (map as_real xs))))"

definition sql_count :: "'a option list \<Rightarrow> nat" where
  \<comment> \<open>\<^verbatim>\<open>COUNT(column)\<close>: the values that are not null\<close>
  "sql_count vs = length (List.map_filter id vs)"


definition paid_sum :: "ticket list \<Rightarrow> sql_number option" where
  \<comment> \<open>the sum of \<^verbatim>\<open>paid_amount\<close> over the given rows, added in that order\<close>
  "paid_sum ts = sql_sum (map (\<lambda>t. Some (stored_decimal (ticket_paid_amount t))) ts)"

definition desc_before :: "bool \<Rightarrow> rat option \<Rightarrow> rat option \<Rightarrow> bool" where
  \<comment> \<open>a row with key \<open>a\<close> may stand before one with key \<open>b\<close> in a descending order\<close>
  "desc_before nulls_first a b =
     (case a of
        None \<Rightarrow> (case b of None \<Rightarrow> True | Some y \<Rightarrow> nulls_first)
      | Some x \<Rightarrow> (case b of None \<Rightarrow> \<not> nulls_first | Some y \<Rightarrow> y \<le> x))"

definition order_by_desc :: "bool \<Rightarrow> ('r \<Rightarrow> rat option) \<Rightarrow> 'r list \<Rightarrow> 'r list \<Rightarrow> bool" where
  "order_by_desc nulls_first key rows out \<longleftrightarrow>
     mset out = mset rows
     \<and> sorted_wrt (\<lambda>a b. desc_before nulls_first (key a) (key b)) out"

fun insert_desc :: "bool \<Rightarrow> ('r \<Rightarrow> rat option) \<Rightarrow> 'r \<Rightarrow> 'r list \<Rightarrow> 'r list" where
  "insert_desc nf key x [] = [x]"
| "insert_desc nf key x (y # ys) =
     (if desc_before nf (key x) (key y) then x # y # ys else y # insert_desc nf key x ys)"

fun sort_desc :: "bool \<Rightarrow> ('r \<Rightarrow> rat option) \<Rightarrow> 'r list \<Rightarrow> 'r list" where
  "sort_desc nf key [] = []"
| "sort_desc nf key (x # xs) = insert_desc nf key x (sort_desc nf key xs)"

text \<open>
  A row of the first report, as the store computes it. \<open>rv_total\<close> is the column the
  store orders by; \<open>total_revenue\<close> is the attribute Django gives the row, the column read
  as a \<^verbatim>\<open>Decimal\<close>.
\<close>

record trip_revenue =
  rv_trip :: trip
  rv_total :: "sql_number option"
  tickets_sold :: nat




definition tickets_of_passenger :: "db \<Rightarrow> nat \<Rightarrow> ticket list" where
  \<comment> \<open>the reverse relation \<^verbatim>\<open>passenger.tickets\<close>\<close>
  "tickets_of_passenger s k = filter (\<lambda>t. ticket_passenger_id t = k) (tickets s)"





record occupancy_row =
  oc_trip :: trip
  sold_count :: nat
  occupancy_rate :: "double option"

definition sql_divide :: "bool \<Rightarrow> double \<Rightarrow> double \<Rightarrow> error + double option" where
  \<comment> \<open>Division in the store. What a zero divisor gives is the store's choice: SQLite
      answers null, other stores raise an error that aborts the query.\<close>
  "sql_divide zero_raises a b =
     (if mant b = 0 then (if zero_raises then Inl DivisionByZero else Inr None)
      else Inr (Some (double_div a b)))"

fun all_rows :: "('e + 'a) list \<Rightarrow> 'e + 'a list" where
  "all_rows [] = Inr []"
| "all_rows (x # xs) =
     (case x of Inl e \<Rightarrow> Inl e
      | Inr r \<Rightarrow> (case all_rows xs of Inl e \<Rightarrow> Inl e | Inr rs \<Rightarrow> Inr (r # rs)))"

definition percentage :: "nat \<Rightarrow> nat \<Rightarrow> double" where
  \<comment> \<open>\<^verbatim>\<open>sold_count * 100.0 / capacity\<close> for a capacity that is not zero: the count times the
      double 100.0 is a double, and so is its quotient by the capacity\<close>
  "percentage sold capacity =
     double_div (double_mul (double_of_int (int sold)) (double_of_int 100))
       (double_of_int (int capacity))"

definition occupancy_of :: "bool \<Rightarrow> trip \<Rightarrow> nat \<Rightarrow> error + occupancy_row" where
  \<comment> \<open>the second annotation, \<^verbatim>\<open>F('sold_count') * 100.0 / F('capacity')\<close>\<close>
  "occupancy_of zero_raises tr sold =
     and_then (sql_divide zero_raises (double_mul (double_of_int (int sold)) (double_of_int 100))
                 (double_of_int (int (trip_capacity tr))))
       (\<lambda>q. Inr \<lparr>oc_trip = tr, sold_count = sold, occupancy_rate = q\<rparr>)"

definition occupancy_rows :: "bool \<Rightarrow> db \<Rightarrow> error + occupancy_row list" where
  \<comment> \<open>\<^verbatim>\<open>Trip.objects.annotate(sold_count=Count('tickets')).annotate(occupancy_rate=...)\<close>;
      an error of the store aborts the whole query\<close>
  "occupancy_rows zero_raises s =
     all_rows
       (map (\<lambda>(tr, g). occupancy_of zero_raises tr (sql_count (map snd g)))
          (group_by fst (left_join trip_pk ticket_trip_id (scan trip_pk (trips s))
                           (scan ticket_key (tickets s)))))"

definition trip_occupancy ::
  "bool \<Rightarrow> bool \<Rightarrow> db \<Rightarrow> error + occupancy_row list \<Rightarrow> bool" where
  \<comment> \<open>\<^verbatim>\<open>.order_by('-occupancy_rate')\<close>: \<open>res\<close> is an outcome of the query, the store's error
      or an answer\<close>
  "trip_occupancy zero_raises nulls_first s res =
     (case occupancy_rows zero_raises s of
        Inl e \<Rightarrow> res = Inl e
      | Inr rows \<Rightarrow>
          (case res of Inl e \<Rightarrow> False
           | Inr out \<Rightarrow>
               order_by_desc nulls_first (\<lambda>r. map_option double_val (occupancy_rate r)) rows out))"

subsection \<open>Rounding to two places, in the specification's words\<close>

text \<open>
  The specification rounds the exact product to two decimal places, half to even. This
  is that rounding on rational numbers, stated apart from the decimal arithmetic of the
  program, which is compared with it below.
\<close>

definition round_half_even :: "rat \<Rightarrow> int" where
  "round_half_even x =
     (let f = \<lfloor>x\<rfloor>; r = x - of_int f
      in if r < 1 / 2 then f else if 1 / 2 < r then f + 1 else if even f then f else f + 1)"

definition round_2dp :: "rat \<Rightarrow> rat" where
  "round_2dp x = of_int (round_half_even (x * 100)) / 100"

subsection \<open>Telling the no-seats error apart\<close>

fun is_no_seats :: "issue \<Rightarrow> bool" where
  "is_no_seats (NoSeats a b d) = True"
| "is_no_seats other = False"

definition no_seats_error :: "error \<Rightarrow> bool" where
  "no_seats_error e =
     (case e of ValidationError es \<Rightarrow> list_ex is_no_seats es | _ \<Rightarrow> False)"

subsection \<open>An example store\<close>

definition ex_child :: passenger where
  "ex_child = \<lparr>passenger_pk = 1, passenger_first_name = ''Ivan'',
     passenger_last_name = ''Franko'', passenger_passport = ''AA100001'', passenger_age = 10\<rparr>"

definition ex_adult :: passenger where
  "ex_adult = \<lparr>passenger_pk = 2, passenger_first_name = ''Lesia'',
     passenger_last_name = ''Ukrainka'', passenger_passport = ''AA100002'', passenger_age = 30\<rparr>"

definition ex_senior :: passenger where
  "ex_senior = \<lparr>passenger_pk = 3, passenger_first_name = ''Taras'',
     passenger_last_name = ''Shevchenko'', passenger_passport = ''AA100003'', passenger_age = 70\<rparr>"

definition ex_cashier :: cashier where
  "ex_cashier = \<lparr>cashier_pk = 1, cashier_first_name = ''Olha'',
     cashier_last_name = ''Kobylianska'', cashier_hire_date = 0\<rparr>"

definition ex_trip :: trip where
  "ex_trip = \<lparr>trip_pk = 1, trip_start_station = ''Lviv'', trip_end_station = ''Kyiv'',
     trip_distance_km = 540, trip_number = ''091'', trip_train_type = ''Intercity'',
     trip_departure = 0, trip_arrival = 300, trip_price = 100, trip_capacity = 1\<rparr>"

definition ex_store :: db where
  "ex_store = \<lparr>passengers = [ex_child, ex_adult, ex_senior], cashiers = [ex_cashier],
     trips = [ex_trip], tickets = []\<rparr>"

definition ex_ticket :: "nat \<Rightarrow> ticket" where
  \<comment> \<open>a new ticket of passenger \<open>k\<close> for the example trip, base price unset\<close>
  "ex_ticket k = \<lparr>ticket_pk = None, ticket_passenger_id = k, ticket_cashier_id = Some 1,
     ticket_trip_id = 1, ticket_purchase_date = None, ticket_base_price = None,
     ticket_payment_method = None, ticket_paid_amount = \<lparr>coeff = 0, expo = 0\<rparr>\<rparr>"

definition ex_sold :: ticket where
  \<comment> \<open>the row that saving \<open>ex_ticket 1\<close> at time 5 writes\<close>
  "ex_sold = \<lparr>ticket_pk = Some 1, ticket_passenger_id = 1, ticket_cashier_id = Some 1,
     ticket_trip_id = 1, ticket_purchase_date = Some 5,
     ticket_base_price = Some \<lparr>coeff = 100, expo = 0\<rparr>,
     ticket_payment_method = None, ticket_paid_amount = \<lparr>coeff = 6000, expo = - 2\<rparr>\<rparr>"

definition ex_store_sold :: db where
  "ex_store_sold = ex_store\<lparr>tickets := [ex_sold]\<rparr>"

definition ex_grow_up :: "passenger \<Rightarrow> passenger" where
  "ex_grow_up p = p\<lparr>passenger_age := 30\<rparr>"

definition ex_pay_by_card :: "ticket \<Rightarrow> ticket" where
  "ex_pay_by_card t = t\<lparr>ticket_payment_method := Some ''card''\<rparr>"

definition ex_store_aged :: db where
  "ex_store_aged = ex_store_sold\<lparr>passengers := [ex_grow_up ex_child, ex_adult, ex_senior]\<rparr>"

definition ex_resold :: ticket where
  "ex_resold = ex_sold\<lparr>ticket_payment_method := Some ''card'',
     ticket_paid_amount := \<lparr>coeff = 12000, expo = - 2\<rparr>\<rparr>"

definition ex_trip_big :: trip where
  "ex_trip_big = \<lparr>trip_pk = 2, trip_start_station = ''Kyiv'', trip_end_station = ''Odesa'',
     trip_distance_km = 480, trip_number = ''105'', trip_train_type = ''Regular'',
     trip_departure = 400, trip_arrival = 900, trip_price = 100, trip_capacity = 100\<rparr>"

definition ex_trip_idle :: trip where
  "ex_trip_idle = \<lparr>trip_pk = 3, trip_start_station = ''Lviv'', trip_end_station = ''Rivne'',
     trip_distance_km = 210, trip_number = ''807'', trip_train_type = ''Regular'',
     trip_departure = 100, trip_arrival = 250, trip_price = 80, trip_capacity = 50\<rparr>"

definition ex_sold_adult :: ticket where
  \<comment> \<open>a ticket of the adult on the second trip, sold with the base price 50.00\<close>
  "ex_sold_adult = \<lparr>ticket_pk = Some 2, ticket_passenger_id = 2, ticket_cashier_id = Some 1,
     ticket_trip_id = 2, ticket_purchase_date = Some 7,
     ticket_base_price = Some \<lparr>coeff = 5000, expo = - 2\<rparr>,
     ticket_payment_method = None, ticket_paid_amount = \<lparr>coeff = 6000, expo = - 2\<rparr>\<rparr>"

definition ex_report_store :: db where
  "ex_report_store = \<lparr>passengers = [ex_child, ex_adult, ex_senior], cashiers = [ex_cashier],
     trips = [ex_trip, ex_trip_big, ex_trip_idle], tickets = [ex_sold, ex_sold_adult]\<rparr>"

definition ex_revenue_1 :: trip_revenue where
  "ex_revenue_1 = \<lparr>rv_trip = ex_trip, rv_total = Some (SqlInt 60), tickets_sold = 1\<rparr>"

definition ex_revenue_2 :: trip_revenue where
  "ex_revenue_2 = \<lparr>rv_trip = ex_trip_big, rv_total = Some (SqlInt 60), tickets_sold = 1\<rparr>"

definition ex_revenue_3 :: trip_revenue where
  "ex_revenue_3 = \<lparr>rv_trip = ex_trip_idle, rv_total = None, tickets_sold = 0\<rparr>"



definition ex_trip_closed :: trip where
  "ex_trip_closed = \<lparr>trip_pk = 4, trip_start_station = ''Lviv'', trip_end_station = ''Sambir'',
     trip_distance_km = 75, trip_number = ''601'', trip_train_type = ''Regular'',
     trip_departure = 0, trip_arrival = 90, trip_price = 40, trip_capacity = 0\<rparr>"

definition ex_closed_store :: db where
  "ex_closed_store = ex_store\<lparr>trips := [ex_trip_closed]\<rparr>"

definition ex_occupancy_closed :: occupancy_row where
  "ex_occupancy_closed = \<lparr>oc_trip = ex_trip_closed, sold_count = 0, occupancy_rate = None\<rparr>"

definition ex_occupancy_1 :: occupancy_row where
  \<comment> \<open>the rate is the double 100.0\<close>
  "ex_occupancy_1 = \<lparr>oc_trip = ex_trip, sold_count = 1,
     occupancy_rate = Some \<lparr>mant = 7036874417766400, bexp = - 46\<rparr>\<rparr>"

definition ex_occupancy_2 :: occupancy_row where
  \<comment> \<open>the rate is the double 1.0\<close>
  "ex_occupancy_2 = \<lparr>oc_trip = ex_trip_big, sold_count = 1,
     occupancy_rate = Some \<lparr>mant = 4503599627370496, bexp = - 52\<rparr>\<rparr>"

definition ex_occupancy_3 :: occupancy_row where
  "ex_occupancy_3 = \<lparr>oc_trip = ex_trip_idle, sold_count = 0,
     occupancy_rate = Some \<lparr>mant = 0, bexp = 0\<rparr>\<rparr>"

definition ex_trip_three :: trip where
  "ex_trip_three = ex_trip\<lparr>trip_capacity := 3\<rparr>"

definition ex_third_store :: db where
  \<comment> \<open>one ticket on a trip of capacity 3\<close>
  "ex_third_store = ex_store_sold\<lparr>trips := [ex_trip_three]\<rparr>"

definition ex_occupancy_third :: occupancy_row where
  \<comment> \<open>the rate is the double that prints as 33.333333333333336\<close>
  "ex_occupancy_third = \<lparr>oc_trip = ex_trip_three, sold_count = 1,
     occupancy_rate = Some \<lparr>mant = 4691249611844267, bexp = - 47\<rparr>\<rparr>"





definition ex_busy_store :: db where
  \<comment> \<open>two trips, no ticket on the first and one on the second\<close>
  "ex_busy_store = \<lparr>passengers = [ex_child, ex_adult, ex_senior], cashiers = [ex_cashier],
     trips = [ex_trip, ex_trip_big], tickets = [ex_sold_adult]\<rparr>"

definition ex_sold_busy :: ticket where
  \<comment> \<open>the row that saving \<open>ex_ticket 1\<close> at time 5 writes there\<close>
  "ex_sold_busy = ex_sold\<lparr>ticket_pk := Some 3\<rparr>"

definition ex_busy_store_sold :: db where
  "ex_busy_store_sold = ex_busy_store\<lparr>tickets := [ex_sold_adult, ex_sold_busy]\<rparr>"

definition ex_forced :: ticket where
  \<comment> \<open>an instance that was never saved, made with the key 9\<close>
  "ex_forced = (ex_ticket 2)\<lparr>ticket_pk := Some 9\<rparr>"

definition ex_forced_row :: ticket where
  "ex_forced_row = \<lparr>ticket_pk = Some 9, ticket_passenger_id = 2, ticket_cashier_id = Some 1,
     ticket_trip_id = 1, ticket_purchase_date = Some 6,
     ticket_base_price = Some \<lparr>coeff = 100, expo = 0\<rparr>,
     ticket_payment_method = None, ticket_paid_amount = \<lparr>coeff = 12000, expo = - 2\<rparr>\<rparr>"

definition ex_huge :: ticket where
  \<comment> \<open>a new ticket with a base price of 28 digits\<close>
  "ex_huge = (ex_ticket 2)\<lparr>ticket_base_price := Some \<lparr>coeff = 10 ^ 27, expo = 0\<rparr>\<rparr>"

section \<open>Properties\<close>

subsection \<open>Sequencing\<close>

lemma and_then_Inr_iff: "and_then m f = Inr y \<longleftrightarrow> (\<exists>x. m = Inr x \<and> f x = Inr y)"
  by (cases m) (simp_all add: and_then_def)

lemma and_then_Inl_iff:
  "and_then m f = Inl e \<longleftrightarrow> m = Inl e \<or> (\<exists>x. m = Inr x \<and> f x = Inl e)"
  by (cases m) (simp_all add: and_then_def)

subsection \<open>Where a no-seats error can come from\<close>

lemma decimal_validator_no_seats: "\<not> list_ex is_no_seats (decimal_validator md dp f d)"
  by (simp add: decimal_validator_def Let_def)

lemma foreign_key_no_seats: "\<not> list_ex is_no_seats (foreign_key f pks v)"
  by (simp add: foreign_key_def split: option.splits)

lemma clean_fields_no_seats: "\<not> list_ex is_no_seats (clean_fields s t)"
  using decimal_validator_no_seats foreign_key_no_seats
  by (auto simp: clean_fields_def list_ex_iff split: option.splits if_splits)

lemma clean_persisted: "ticket_pk t \<noteq> None \<Longrightarrow> clean s t = Inr ()"
  by (auto simp: clean_def)

lemma full_clean_persisted:
  "ticket_pk t \<noteq> None \<Longrightarrow> full_clean s t = Inl e \<Longrightarrow> e = ValidationError (clean_fields s t)"
  by (simp add: full_clean_def clean_persisted Let_def split: if_splits)

lemma save_Inl_cases:
  assumes "save now s t = Inl e"
  shows "(\<not> base_truthy (ticket_base_price t) \<and> related_trip s t = Inl e)
       \<or> (\<exists>t1. ticket_pk t1 = ticket_pk t \<and> price s t1 = Inl e)
       \<or> (\<exists>t2. ticket_pk t2 = ticket_pk t \<and> full_clean s t2 = Inl e)"
  using assms
  by (auto simp: save_def and_then_Inl_iff and_then_Inr_iff Let_def split: if_splits)

lemma dec_fix_not_no_seats: "dec_fix d = Inl e \<Longrightarrow> \<not> no_seats_error e"
  by (auto simp: dec_fix_def Let_def no_seats_error_def split: if_splits)

lemma dec_round_not_no_seats: "dec_round d n = Inl e \<Longrightarrow> \<not> no_seats_error e"
  by (auto simp: dec_round_def dec_quantize_def Let_def no_seats_error_def
      dest: dec_fix_not_no_seats split: if_splits)

lemma related_trip_not_no_seats: "related_trip s t = Inl e \<Longrightarrow> \<not> no_seats_error e"
  by (auto simp: related_trip_def no_seats_error_def split: option.splits)

lemma related_passenger_not_no_seats:
  "related_passenger s t = Inl e \<Longrightarrow> \<not> no_seats_error e"
  by (auto simp: related_passenger_def no_seats_error_def split: option.splits)

lemma price_not_no_seats: "price s t = Inl e \<Longrightarrow> \<not> no_seats_error e"
  by (auto simp: price_def current_base_def raw_price_def dec_mul_def dec_add_def
      and_then_Inl_iff Let_def
      dest: dec_fix_not_no_seats dec_round_not_no_seats related_trip_not_no_seats
        related_passenger_not_no_seats
      split: option.splits if_splits)

subsection \<open>Evaluating the example\<close>

lemmas ex_defs = ex_store_def ex_store_sold_def ex_trip_def ex_child_def ex_adult_def
  ex_senior_def ex_cashier_def ex_ticket_def ex_sold_def

lemmas dec_defs = dec_mul_def dec_add_def dec_fix_def dec_round_def dec_quantize_def
  dec_rescale_def round_half_even_div_def dec_of_int_def dec_truthy_def TAX_def
  prec_def Emax_def Emin_def Etiny_def Etop_def ndigits.simps Let_def

lemmas price_defs = price_def current_base_def related_trip_def related_passenger_def
  get_by_id_def raw_price_def calculate_discount_def and_then_def base_truthy_def

lemmas save_defs = save_def full_clean_def clean_def clean_fields_def foreign_key_def
  decimal_validator_def available_seats_def tickets_of_trip_def model_save_def fresh_pk_def

lemma ex_save_first: "save 5 ex_store (ex_ticket 1) = Inr (ex_store_sold, ex_sold)"
  by (simp add: save_defs price_defs ex_defs dec_defs)

lemma ex_save_second:
  "save 6 ex_store_sold (ex_ticket 2) = Inl (ValidationError [NoSeats ''Lviv'' ''Kyiv'' 540])"
  by (simp add: save_defs price_defs ex_defs dec_defs)

lemma ex_save_again: "save 6 ex_store_sold ex_sold = Inr (ex_store_sold, ex_sold)"
  by (simp add: save_defs price_defs ex_defs dec_defs)

lemma ex_save_no_cashier:
  "save 6 ex_store_sold (ex_sold\<lparr>ticket_cashier_id := None\<rparr>)
     = Inl (ValidationError [Blank ''cashier''])"
  by (simp add: save_defs price_defs ex_defs dec_defs)

lemma ex_price_adult: "price ex_store_sold (ex_ticket 2) = Inr \<lparr>coeff = 12000, expo = - 2\<rparr>"
  by (simp add: price_defs ex_defs dec_defs)

lemma ex_delete_passenger:
  "delete_passenger ex_store_sold 1
     = (ex_store\<lparr>passengers := [ex_adult, ex_senior]\<rparr>, True)"
  by (simp add: delete_passenger_def get_by_id_def ex_defs)

lemma ex_delete_cashier:
  "delete_cashier ex_store_sold 1
     = (ex_store\<lparr>cashiers := [], tickets := [ex_sold\<lparr>ticket_cashier_id := None\<rparr>]\<rparr>, True)"
  by (simp add: delete_cashier_def get_by_id_def ex_defs)

lemma ex_save_zero_base:
  "save 5 ex_store ((ex_ticket 1)\<lparr>ticket_base_price := Some \<lparr>coeff = 0, expo = - 2\<rparr>\<rparr>)
     = Inr (ex_store_sold, ex_sold)"
  by (simp add: save_defs price_defs ex_defs dec_defs)

lemma ex_save_given_base:
  "save 5 ex_store ((ex_ticket 1)\<lparr>ticket_base_price := Some \<lparr>coeff = 5000, expo = - 2\<rparr>\<rparr>)
     = Inr (ex_store\<lparr>tickets := [ex_sold\<lparr>ticket_base_price := Some \<lparr>coeff = 5000, expo = - 2\<rparr>,
                                          ticket_paid_amount := \<lparr>coeff = 3000, expo = - 2\<rparr>\<rparr>]\<rparr>,
            ex_sold\<lparr>ticket_base_price := Some \<lparr>coeff = 5000, expo = - 2\<rparr>,
                    ticket_paid_amount := \<lparr>coeff = 3000, expo = - 2\<rparr>\<rparr>)"
  by (simp add: save_defs price_defs ex_defs dec_defs)

lemmas ex_aged_defs = ex_defs ex_grow_up_def ex_pay_by_card_def ex_store_aged_def ex_resold_def

lemma ex_price_child: "price ex_store (ex_ticket 1) = Inr \<lparr>coeff = 6000, expo = - 2\<rparr>"
  by (simp add: price_defs ex_defs dec_defs)

lemma ex_price_senior: "price ex_store (ex_ticket 3) = Inr \<lparr>coeff = 8400, expo = - 2\<rparr>"
  by (simp add: price_defs ex_defs dec_defs)

lemma ex_price_adult_first: "price ex_store (ex_ticket 2) = Inr \<lparr>coeff = 12000, expo = - 2\<rparr>"
  by (simp add: price_defs ex_defs dec_defs)

lemma ex_update_passenger:
  "update_passenger ex_store_sold 1 ex_grow_up = (ex_store_aged, Some (ex_grow_up ex_child))"
  by (simp add: update_passenger_def store_row_def get_by_id_def ex_aged_defs)

lemma ex_update_ticket:
  "update_ticket 6 ex_store_aged 1 ex_pay_by_card
     = Inr (ex_store_aged\<lparr>tickets := [ex_resold]\<rparr>, Some ex_resold)"
  by (simp add: update_ticket_def ticket_by_id_def save_defs price_defs ex_aged_defs dec_defs)

lemma ex_save_aged:
  "save 6 ex_store_aged ex_sold
     = Inr (ex_store_aged\<lparr>tickets := [ex_sold\<lparr>ticket_paid_amount := \<lparr>coeff = 12000, expo = - 2\<rparr>\<rparr>]\<rparr>,
            ex_sold\<lparr>ticket_paid_amount := \<lparr>coeff = 12000, expo = - 2\<rparr>\<rparr>)"
  by (simp add: save_defs price_defs ex_aged_defs dec_defs)

subsection \<open>What a successful save did\<close>

lemma related_trip_base [simp]:
  "related_trip s (t\<lparr>ticket_base_price := b\<rparr>) = related_trip s t"
  by (simp add: related_trip_def)

lemma related_trip_paid [simp]:
  "related_trip s (t\<lparr>ticket_paid_amount := p\<rparr>) = related_trip s t"
  by (simp add: related_trip_def)

lemma related_passenger_base [simp]:
  "related_passenger s (t\<lparr>ticket_base_price := b\<rparr>) = related_passenger s t"
  by (simp add: related_passenger_def)

lemma related_trip_pk:
  "related_trip s t = Inr tr \<Longrightarrow> trip_pk tr = ticket_trip_id t \<and> tr \<in> set (trips s)"
  by (auto simp: related_trip_def get_by_id_def find_Some_iff split: option.splits)

lemma price_resolved:
  assumes "\<not> base_truthy (ticket_base_price t)" "related_trip s t = Inr tr"
  shows "price s (t\<lparr>ticket_base_price := Some (dec_of_int (int (trip_price tr)))\<rparr>) = price s t"
  using assms
  by (auto simp: price_def current_base_def base_truthy_def and_then_def
      split: option.splits)

lemma save_unfold:
  "save now s t =
     (if base_truthy (ticket_base_price t) then
        and_then (price s t) (\<lambda>p.
          and_then (full_clean s (t\<lparr>ticket_paid_amount := p\<rparr>)) (\<lambda>u.
            Inr (model_save now s (t\<lparr>ticket_paid_amount := p\<rparr>))))
      else
        and_then (related_trip s t) (\<lambda>tr.
          and_then (price s t) (\<lambda>p.
            let t2 = t\<lparr>ticket_base_price := Some (dec_of_int (int (trip_price tr))),
                       ticket_paid_amount := p\<rparr>
            in and_then (full_clean s t2) (\<lambda>u. Inr (model_save now s t2)))))"
proof (cases "base_truthy (ticket_base_price t)")
  case True
  then show ?thesis by (simp add: save_def and_then_def Let_def)
next
  case False
  show ?thesis
  proof (cases "related_trip s t")
    case (Inl e)
    with False show ?thesis by (simp add: save_def and_then_def)
  next
    case (Inr tr)
    with False price_resolved [OF False Inr] show ?thesis
      by (simp add: save_def and_then_def Let_def)
  qed
qed

lemma model_save_fields:
  assumes "model_save now s t = (s', t')"
  shows "ticket_base_price t' = ticket_base_price t"
    and "ticket_paid_amount t' = ticket_paid_amount t"
    and "ticket_trip_id t' = ticket_trip_id t"
    and "ticket_passenger_id t' = ticket_passenger_id t"
    and "passengers s' = passengers s" and "trips s' = trips s" and "cashiers s' = cashiers s"
  using assms
  by (auto simp: model_save_def Let_def split: option.splits if_splits)

lemma model_save_new:
  assumes "model_save now s t = (s', t')" "ticket_pk t = None"
  shows "tickets s' = tickets s @ [t']"
  using assms by (auto simp: model_save_def Let_def)

lemma full_clean_no_seats:
  assumes "ticket_pk t = None" "related_trip s t = Inr tr" "available_seats s tr \<le> 0"
  shows "full_clean s t = Inl (ValidationError (clean_fields s t @
           [NoSeats (trip_start_station tr) (trip_end_station tr) (trip_distance_km tr)]))"
  using assms by (simp add: full_clean_def clean_def and_then_def Let_def)

lemma save_no_seats:
  assumes "ticket_pk t = None" "related_trip s t = Inr tr" "available_seats s tr \<le> 0"
  shows "(\<exists>e. save now s t = Inl e)
       \<and> (\<forall>p. price s t = Inr p \<longrightarrow>
            (\<exists>es. save now s t = Inl (ValidationError es)
                \<and> NoSeats (trip_start_station tr) (trip_end_station tr) (trip_distance_km tr)
                   \<in> set es))"
proof (cases "price s t")
  case (Inl e)
  then show ?thesis using assms by (simp add: save_unfold and_then_def)
next
  case (Inr p)
  show ?thesis
  proof (cases "base_truthy (ticket_base_price t)")
    case True
    with Inr full_clean_no_seats [of "t\<lparr>ticket_paid_amount := p\<rparr>" s tr] assms
    show ?thesis by (simp add: save_unfold and_then_def)
  next
    case False
    with Inr assms
      full_clean_no_seats [of "t\<lparr>ticket_base_price := Some (dec_of_int (int (trip_price tr))),
                       ticket_paid_amount := p\<rparr>" s tr]
    show ?thesis by (simp add: save_unfold and_then_def Let_def)
  qed
qed

lemma save_Inr_new:
  assumes "save now s t = Inr (s', t')" "ticket_pk t = None"
  shows "tickets s' = tickets s @ [t'] \<and> ticket_trip_id t' = ticket_trip_id t
       \<and> trips s' = trips s \<and> passengers s' = passengers s \<and> ticket_pk t' \<noteq> None"
  using assms
  by (auto simp: save_unfold and_then_Inr_iff Let_def model_save_def split: if_splits)

lemma available_seats_after_sale:
  assumes "save now s t = Inr (s', t')" "ticket_pk t = None" "related_trip s t = Inr tr"
  shows "available_seats s' tr = available_seats s tr - 1"
  using save_Inr_new [OF assms(1,2)] related_trip_pk [OF assms(3)]
  by (simp add: available_seats_def tickets_of_trip_def)

lemma second_sale_no_seats:
  assumes "ticket_pk t = None" "related_trip s t = Inr tr" "trip_capacity tr = 1"
    "tickets_of_trip s (trip_pk tr) = []" "save now s t = Inr (s1, t1)"
    "ticket_pk u = None" "ticket_trip_id u = ticket_trip_id t"
  shows "(\<exists>e. save now' s1 u = Inl e)
      \<and> (\<forall>p. price s1 u = Inr p \<longrightarrow>
            (\<exists>es. save now' s1 u = Inl (ValidationError es)
               \<and> NoSeats (trip_start_station tr) (trip_end_station tr) (trip_distance_km tr)
                  \<in> set es))"
proof -
  have "available_seats s tr = 1"
    using assms(3,4) by (simp add: available_seats_def)
  then have seats: "available_seats s1 tr \<le> 0"
    using available_seats_after_sale [OF assms(5,1,2)] by simp
  have "trips s1 = trips s" using save_Inr_new [OF assms(5,1)] by simp
  then have "related_trip s1 u = Inr tr"
    using assms(2,7) by (simp add: related_trip_def)
  from assms(6) this seats show ?thesis
    by (rule save_no_seats)
qed

subsection \<open>Digits and bounds\<close>

lemma ndigits_pos: "0 < ndigits n"
  by (simp add: ndigits.simps [of n])

lemma ndigits_le_iff: "0 < k \<Longrightarrow> ndigits n \<le> k \<longleftrightarrow> n < 10 ^ k"
proof (induction n arbitrary: k rule: ndigits.induct)
  case (1 n)
  show ?case
  proof (cases "n < 10")
    case True
    have "(10::nat) ^ 1 \<le> 10 ^ k" using 1(2) by (intro power_increasing) auto
    with True 1(2) show ?thesis by (simp add: ndigits.simps [of n])
  next
    case False
    show ?thesis
    proof (cases "k = 1")
      case True
      with False ndigits_pos [of "n div 10"] show ?thesis
        by (simp add: ndigits.simps [of n])
    next
      case k: False
      with 1(2) obtain j where j: "k = Suc j" "0 < j" by (cases k) auto
      from 1(1) [OF False j(2)] False j show ?thesis
        by (simp add: ndigits.simps [of n] div_less_iff_less_mult mult.commute)
    qed
  qed
qed

lemma dec_fix_zero:
  assumes "coeff d = 0"
  shows "dec_fix d = Inr \<lparr>coeff = 0, expo = min (max (expo d) Etiny) Emax\<rparr>"
  unfolding dec_fix_def using assms by (rule if_P)

lemma dec_fix_unchanged:
  assumes "coeff d \<noteq> 0"
    and "\<not> Etop < int (ndigits (nat \<bar>coeff d\<bar>)) + expo d - prec"
    and "\<not> int (ndigits (nat \<bar>coeff d\<bar>)) + expo d - prec < Etiny"
    and "\<not> expo d < int (ndigits (nat \<bar>coeff d\<bar>)) + expo d - prec"
  shows "dec_fix d = Inr d"
  unfolding dec_fix_def Let_def
  by (simp only: assms if_False)

lemma dec_fix_unchanged_tiny:
  assumes "coeff d \<noteq> 0"
    and "\<not> Etop < int (ndigits (nat \<bar>coeff d\<bar>)) + expo d - prec"
    and "int (ndigits (nat \<bar>coeff d\<bar>)) + expo d - prec < Etiny"
    and "\<not> expo d < Etiny"
  shows "dec_fix d = Inr d"
  unfolding dec_fix_def Let_def
  by (simp only: assms if_False if_True)

lemma dec_fix_id:
  assumes "\<bar>coeff d\<bar> < 10 ^ 28" "Etiny \<le> expo d" "expo d \<le> Etop"
  shows "dec_fix d = Inr d"
proof (cases "coeff d = 0")
  case True
  have "expo d \<le> Emax" using assms(3) by (simp add: Etop_def prec_def)
  then have "min (max (expo d) Etiny) Emax = expo d" using assms(2) by simp
  then have "dec_fix d = Inr \<lparr>coeff = 0, expo = expo d\<rparr>"
    using dec_fix_zero [OF True] by simp
  also have "\<lparr>coeff = 0, expo = expo d\<rparr> = d" using True by simp
  finally show ?thesis .
next
  case False
  from assms(1) have "nat \<bar>coeff d\<bar> < 10 ^ 28" by (simp add: nat_less_iff)
  then have "ndigits (nat \<bar>coeff d\<bar>) \<le> 28"
    by (simp add: ndigits_le_iff)
  then have n: "int (ndigits (nat \<bar>coeff d\<bar>)) \<le> prec" by (simp add: prec_def)
  have 1: "\<not> Etop < int (ndigits (nat \<bar>coeff d\<bar>)) + expo d - prec"
    using n assms(3) by linarith
  have 2: "\<not> expo d < int (ndigits (nat \<bar>coeff d\<bar>)) + expo d - prec"
    using n by linarith
  have 3: "\<not> expo d < Etiny" using assms(2) by linarith
  show ?thesis
  proof (cases "int (ndigits (nat \<bar>coeff d\<bar>)) + expo d - prec < Etiny")
    case True
    from False 1 True 3 show ?thesis by (rule dec_fix_unchanged_tiny)
  next
    case F: False
    from False 1 F 2 show ?thesis by (rule dec_fix_unchanged)
  qed
qed

lemma round_half_even_div_bounds:
  assumes "0 < m"
  shows "c div m \<le> round_half_even_div c m" "round_half_even_div c m \<le> c div m + 1"
  by (simp_all add: round_half_even_div_def Let_def)

lemma round_half_even_div_abs:
  assumes "0 < m"
  shows "\<bar>round_half_even_div c m\<bar> \<le> \<bar>c\<bar> + 1"
proof -
  have "c div m \<le> \<bar>c\<bar>"
  proof (cases "0 \<le> c")
    case True
    then have "c div m \<le> c div 1" using assms by (intro zdiv_mono2) auto
    with True show ?thesis by simp
  next
    case False
    then have "c div m < 0" using assms by (simp add: pos_imp_zdiv_neg_iff)
    then show ?thesis by linarith
  qed
  moreover have "- \<bar>c\<bar> \<le> c div m"
  proof (cases "0 \<le> c")
    case True
    then have "0 \<le> c div m" using assms by (simp add: pos_imp_zdiv_nonneg_iff)
    then show ?thesis by linarith
  next
    case False
    then have "c div 1 \<le> c div m" using assms by (intro zdiv_mono2_neg) auto
    with False show ?thesis by simp
  qed
  ultimately show ?thesis
    using round_half_even_div_bounds [OF assms, of c] by linarith
qed

lemma round_half_even_of_div:
  assumes "0 < m"
  shows "round_half_even (of_int c / of_int m) = round_half_even_div c m"
proof -
  have f: "\<lfloor>(of_int c / of_int m :: rat)\<rfloor> = c div m"
    by (rule floor_divide_of_int_eq)
  have m: "(0::rat) < of_int m" using assms by simp
  have "of_int c = (of_int (c div m) * of_int m + of_int (c mod m) :: rat)"
    by (metis of_int_add of_int_mult div_mult_mod_eq)
  then have r: "(of_int c / of_int m - of_int (c div m) :: rat) = of_int (c mod m) / of_int m"
    using m by (simp add: field_simps)
  have lt: "(of_int (c mod m) / of_int m < (1 / 2 :: rat)) \<longleftrightarrow> 2 * (c mod m) < m"
  proof -
    have "(of_int (c mod m) / of_int m < (1 / 2 :: rat))
        \<longleftrightarrow> (of_int (2 * (c mod m)) < (of_int m :: rat))"
      using m by (simp add: field_simps)
    then show ?thesis by (simp only: of_int_less_iff)
  qed
  have gt: "((1 / 2 :: rat) < of_int (c mod m) / of_int m) \<longleftrightarrow> m < 2 * (c mod m)"
  proof -
    have "((1 / 2 :: rat) < of_int (c mod m) / of_int m)
        \<longleftrightarrow> ((of_int m :: rat) < of_int (2 * (c mod m)))"
      using m by (simp add: field_simps)
    then show ?thesis by (simp only: of_int_less_iff)
  qed
  show ?thesis
    unfolding round_half_even_def round_half_even_div_def Let_def f r lt gt
    by simp
qed

lemma round_half_even_of_int [simp]: "round_half_even (of_int n) = n"
  by (simp add: round_half_even_def)

subsection \<open>Field values stay inside the decimal context\<close>

lemma decimal_validator_bounds:
  assumes v: "decimal_validator 10 2 f d = []" and z: "coeff d \<noteq> 0 \<or> expo d = 0"
  shows "\<bar>coeff d\<bar> < 10 ^ 10 \<and> - 2 \<le> expo d \<and> expo d \<le> 9"
proof -
  define n where "n = int (ndigits (nat \<bar>coeff d\<bar>))"
  have n1: "1 \<le> n" using ndigits_pos [of "nat \<bar>coeff d\<bar>"] by (simp add: n_def)
  define digits where "digits = (if 0 \<le> expo d then (if coeff d \<noteq> 0 then n + expo d else n)
                    else if n < - expo d then - expo d else n)"
  define decimals where "decimals = (if 0 \<le> expo d then 0 else - expo d)"
  have "decimal_validator 10 2 f d =
      (if 10 < digits then [MaxDigits f]
       else if 2 < decimals then [MaxDecimalPlaces f]
       else if 10 - 2 < digits - decimals then [MaxWholeDigits f]
       else [])"
    unfolding decimal_validator_def digits_def decimals_def n_def by (simp only: Let_def)
  with v have "\<not> 10 < digits \<and> \<not> 2 < decimals"
    by (simp split: if_splits)
  then have d: "digits \<le> 10" "decimals \<le> 2" by simp_all
  have e: "- 2 \<le> expo d" using d(2) by (simp add: decimals_def split: if_splits)
  have n10: "n \<le> 10" using d(1) n1 by (simp add: digits_def split: if_splits)
  have e9: "expo d \<le> 9" using d(1) n1 z by (simp add: digits_def split: if_splits)
  from n10 have "ndigits (nat \<bar>coeff d\<bar>) \<le> 10" by (simp add: n_def)
  then have "nat \<bar>coeff d\<bar> < 10 ^ 10" by (simp add: ndigits_le_iff)
  then have "\<bar>coeff d\<bar> < 10 ^ 10" by (simp add: nat_less_iff)
  with e e9 show ?thesis by simp
qed

lemma one_plus_TAX: "dec_add (dec_of_int 1) TAX = Inr \<lparr>coeff = 12, expo = - 1\<rparr>"
  by (simp add: dec_defs)

lemma calculate_discount_bounds:
  "0 < coeff (calculate_discount a) \<and> coeff (calculate_discount a) \<le> 10
   \<and> expo (calculate_discount a) = - 1"
  by (simp add: calculate_discount_def)

lemma dec_mul_exact:
  assumes "\<bar>coeff a * coeff b\<bar> < 10 ^ 28" "Etiny \<le> expo a + expo b" "expo a + expo b \<le> Etop"
  shows "dec_mul a b = Inr \<lparr>coeff = coeff a * coeff b, expo = expo a + expo b\<rparr>"
  unfolding dec_mul_def using assms by (intro dec_fix_id) simp_all

lemma raw_price_exact:
  assumes "\<bar>coeff b\<bar> < 10 ^ 10" "- 2 \<le> expo b" "expo b \<le> 9"
  shows "raw_price b (calculate_discount a)
       = Inr \<lparr>coeff = coeff b * coeff (calculate_discount a) * 12, expo = expo b - 2\<rparr>"
proof -
  let ?d = "calculate_discount a"
  have cd: "0 < coeff ?d" "coeff ?d \<le> 10" "expo ?d = - 1"
    using calculate_discount_bounds [of a] by simp_all
  have "\<bar>coeff b * coeff ?d\<bar> = \<bar>coeff b\<bar> * coeff ?d"
    using cd(1) by (simp add: abs_mult)
  also have "\<dots> \<le> \<bar>coeff b\<bar> * 10"
    using cd(2) by (intro mult_left_mono) simp_all
  finally have m1: "\<bar>coeff b * coeff ?d\<bar> < 10 ^ 11" using assms(1) by simp
  have x: "dec_mul b ?d = Inr \<lparr>coeff = coeff b * coeff ?d, expo = expo b + - 1\<rparr>"
    using m1 assms(2,3) cd(3)
    by (intro dec_mul_exact [of b ?d, unfolded cd(3)])
       (simp_all add: Etiny_def Etop_def Emin_def Emax_def prec_def)
  have "\<bar>coeff b * coeff ?d * 12\<bar> = \<bar>coeff b * coeff ?d\<bar> * 12" by (simp add: abs_mult)
  with m1 have m2: "\<bar>coeff b * coeff ?d * 12\<bar> < 10 ^ 28" by simp
  have y: "dec_mul \<lparr>coeff = coeff b * coeff ?d, expo = expo b + - 1\<rparr> \<lparr>coeff = 12, expo = - 1\<rparr>
      = Inr \<lparr>coeff = coeff b * coeff ?d * 12, expo = expo b - 2\<rparr>"
    using m2 assms(2,3)
    by (subst dec_mul_exact) (simp_all add: Etiny_def Etop_def Emin_def Emax_def prec_def)
  show ?thesis
    unfolding raw_price_def x one_plus_TAX using y by (simp add: and_then_def)
qed

subsection \<open>Rounding to two places\<close>

lemma dec_quantize_nonzero:
  assumes "Etiny \<le> e \<and> e \<le> Emax" "coeff d \<noteq> 0"
    and "\<not> Emax < int (ndigits (nat \<bar>coeff d\<bar>)) + expo d - 1"
    and "\<not> prec < int (ndigits (nat \<bar>coeff d\<bar>)) + expo d - 1 - e + 1"
    and "\<not> Emax < int (ndigits (nat \<bar>coeff (dec_rescale d e)\<bar>)) + expo (dec_rescale d e) - 1"
    and "\<not> prec < int (ndigits (nat \<bar>coeff (dec_rescale d e)\<bar>))"
  shows "dec_quantize d e = dec_fix (dec_rescale d e)"
  unfolding dec_quantize_def Let_def
  by (simp only: assms if_False simp_thms)

lemma dec_quantize_zero:
  assumes "Etiny \<le> e \<and> e \<le> Emax" "coeff d = 0"
  shows "dec_quantize d e = dec_fix \<lparr>coeff = 0, expo = e\<rparr>"
  unfolding dec_quantize_def
  by (simp only: assms if_False if_True simp_thms)

lemma expo_dec_rescale [simp]: "expo (dec_rescale d e) = e"
  by (simp add: dec_rescale_def)

lemma abs_lt_ndigits:
  assumes "\<bar>c\<bar> < 10 ^ k" "0 < k"
  shows "int (ndigits (nat \<bar>c\<bar>)) \<le> int k"
proof -
  from assms(1) have "nat \<bar>c\<bar> < 10 ^ k" by (simp add: nat_less_iff)
  with assms(2) show ?thesis by (simp add: ndigits_le_iff)
qed

lemma dec_rescale_coeff_bound:
  assumes "\<bar>coeff d\<bar> < 10 ^ 14" "expo d \<le> 7"
  shows "\<bar>coeff (dec_rescale d (- 2))\<bar> < 10 ^ 24"
proof (cases "coeff d = 0 \<or> expo d < - 2")
  case True
  have "(0::int) < 10 ^ nat (- 2 - expo d)" by simp
  from round_half_even_div_abs [OF this, of "coeff d"] assms(1) True
  show ?thesis by (auto simp: dec_rescale_def)
next
  case False
  then have e: "- 2 \<le> expo d" by simp
  have "nat (expo d + 2) \<le> 9" using assms(2) by simp
  then have "(10::int) ^ nat (expo d + 2) \<le> 10 ^ 9"
    by (intro power_increasing) simp_all
  then have "\<bar>coeff d\<bar> * 10 ^ nat (expo d + 2) \<le> \<bar>coeff d\<bar> * 10 ^ 9"
    by (intro mult_left_mono) simp_all
  also have "\<dots> < 10 ^ 14 * 10 ^ 9" using assms(1) by simp
  finally have "\<bar>coeff d * 10 ^ nat (expo d + 2)\<bar> < 10 ^ 24" by (simp add: abs_mult)
  with False e show ?thesis by (simp add: dec_rescale_def)
qed

lemma dec_round_exact:
  assumes "\<bar>coeff d\<bar> < 10 ^ 14" "- 4 \<le> expo d" "expo d \<le> 7"
  shows "dec_round d 2 = Inr (dec_rescale d (- 2))"
proof -
  have r: "Etiny \<le> - 2 \<and> - 2 \<le> Emax"
    by (simp add: Etiny_def Emin_def Emax_def prec_def)
  have b: "\<bar>coeff (dec_rescale d (- 2))\<bar> < 10 ^ 24"
    using assms(1,3) by (rule dec_rescale_coeff_bound)
  have fx: "dec_fix (dec_rescale d (- 2)) = Inr (dec_rescale d (- 2))"
    using b by (intro dec_fix_id) (simp_all add: Etiny_def Etop_def Emin_def Emax_def prec_def)
  show ?thesis
  proof (cases "coeff d = 0")
    case True
    then have "dec_rescale d (- 2) = \<lparr>coeff = 0, expo = - 2\<rparr>" by (simp add: dec_rescale_def)
    with fx dec_quantize_zero [OF r True] show ?thesis by (simp add: dec_round_def)
  next
    case False
    have n: "int (ndigits (nat \<bar>coeff d\<bar>)) \<le> 14"
      using abs_lt_ndigits [OF assms(1)] by simp
    have l: "int (ndigits (nat \<bar>coeff (dec_rescale d (- 2))\<bar>)) \<le> 24"
      using abs_lt_ndigits [OF b] by simp
    have "dec_quantize d (- 2) = dec_fix (dec_rescale d (- 2))"
      using n l assms(3)
      by (intro dec_quantize_nonzero [OF r False]) (simp_all add: Emax_def prec_def)
    with fx show ?thesis by (simp add: dec_round_def)
  qed
qed

subsection \<open>The value of a decimal\<close>

lemma dec_val_powi: "dec_val d = of_int (coeff d) * 10 powi (expo d)"
proof (cases "0 \<le> expo d")
  case True
  then show ?thesis by (simp add: dec_val_def power_int_def)
next
  case False
  have "inverse (10::rat) ^ nat (- expo d) = 1 / 10 ^ nat (- expo d)"
    by (simp add: power_one_over inverse_eq_divide)
  with False show ?thesis by (simp add: dec_val_def power_int_def)
qed

lemma dec_val_mult:
  "dec_val \<lparr>coeff = a * b, expo = e + f\<rparr> = dec_val \<lparr>coeff = a, expo = e\<rparr> * dec_val \<lparr>coeff = b, expo = f\<rparr>"
proof -
  have "(10::rat) powi (e + f) = 10 powi e * 10 powi f"
    by (rule power_int_add) simp
  then show ?thesis by (simp add: dec_val_powi)
qed

lemma dec_val_rescale:
  "dec_val (dec_rescale d (- 2)) = round_2dp (dec_val d)"
proof -
  consider "coeff d = 0" | "coeff d \<noteq> 0" "- 2 \<le> expo d" | "coeff d \<noteq> 0" "expo d < - 2"
    by linarith
  then show ?thesis
  proof cases
    case 1
    then show ?thesis
      by (simp add: dec_rescale_def dec_val_powi round_2dp_def round_half_even_def)
  next
    case 2
    have "dec_val d * 100 = of_int (coeff d) * (10 powi expo d * 10 powi 2)"
      by (simp add: dec_val_powi)
    also have "(10::rat) powi expo d * 10 powi 2 = 10 powi (expo d + 2)"
      by (simp add: power_int_add)
    also have "\<dots> = 10 ^ nat (expo d + 2)"
      using 2(2) by (simp add: power_int_def)
    finally have "dec_val d * 100 = of_int (coeff d * 10 ^ nat (expo d + 2))" by simp
    then have "round_2dp (dec_val d) = of_int (coeff d * 10 ^ nat (expo d + 2)) / 100"
      by (simp only: round_2dp_def round_half_even_of_int)
    moreover have "dec_val (dec_rescale d (- 2)) = of_int (coeff d * 10 ^ nat (expo d + 2)) / 100"
      using 2 by (simp add: dec_rescale_def dec_val_def)
    ultimately show ?thesis by simp
  next
    case 3
    let ?m = "(10::int) ^ nat (- 2 - expo d)"
    have m: "0 < ?m" by simp
    have "dec_val d * 100 = of_int (coeff d) * (10 powi expo d * 10 powi 2)"
      by (simp add: dec_val_powi)
    also have "(10::rat) powi expo d * 10 powi 2 = 10 powi (expo d + 2)"
      by (simp add: power_int_add)
    also have "\<dots> = 1 / of_int ?m"
    proof -
      have "inverse (10::rat) ^ nat (- 2 - expo d) = 1 / 10 ^ nat (- 2 - expo d)"
        by (simp add: power_one_over inverse_eq_divide)
      moreover have "nat (- expo d - 2) = nat (- 2 - expo d)" by simp
      ultimately show ?thesis using 3(2) by (simp add: power_int_def)
    qed
    finally have "dec_val d * 100 = of_int (coeff d) / of_int ?m" by simp
    then have "round_2dp (dec_val d) = of_int (round_half_even_div (coeff d) ?m) / 100"
      by (simp only: round_2dp_def round_half_even_of_div [OF m])
    moreover have "dec_val (dec_rescale d (- 2)) = of_int (round_half_even_div (coeff d) ?m) / 100"
      using 3 by (simp add: dec_rescale_def dec_val_def)
    ultimately show ?thesis by simp
  qed
qed

lemma dec_val_TAX: "1 + dec_val TAX = 6 / 5"
  by (simp add: TAX_def dec_val_def)

lemma dec_val_raw:
  "dec_val \<lparr>coeff = c * k * 12, expo = e - 2\<rparr>
     = dec_val \<lparr>coeff = c, expo = e\<rparr> * dec_val \<lparr>coeff = k, expo = - 1\<rparr> * (1 + dec_val TAX)"
proof -
  have "dec_val \<lparr>coeff = c * k * 12, expo = e + - 1 + - 1\<rparr>
      = dec_val \<lparr>coeff = c, expo = e\<rparr> * dec_val \<lparr>coeff = k, expo = - 1\<rparr>
        * dec_val \<lparr>coeff = 12, expo = - 1\<rparr>"
    by (simp only: dec_val_mult)
  moreover have "dec_val \<lparr>coeff = 12, expo = - 1\<rparr> = 1 + dec_val TAX"
    by (simp add: TAX_def dec_val_def)
  ultimately show ?thesis by simp
qed

subsection \<open>The price that a successful save stores\<close>

lemma full_clean_Inr: "full_clean s t = Inr u \<Longrightarrow> clean_fields s t = []"
  by (auto simp: full_clean_def Let_def split: sum.splits error.splits if_splits)

lemma clean_fields_base:
  "clean_fields s t = [] \<Longrightarrow> ticket_base_price t = Some b \<Longrightarrow>
     decimal_validator 10 2 ''base_price'' b = []"
  by (simp add: clean_fields_def)

lemma model_save_mem: "model_save now s t = (s', t') \<Longrightarrow> t' \<in> set (tickets s')"
  by (auto simp: model_save_def Let_def list_ex_iff split: option.splits if_splits)

lemma price_Inr_passenger: "price s t = Inr pa \<Longrightarrow> \<exists>p. related_passenger s t = Inr p"
  by (auto simp: price_def and_then_Inr_iff)

lemma save_success:
  assumes "save now s t = Inr (s', t')"
  shows "\<exists>base p. current_base s t = Inr base \<and> related_passenger s t = Inr p
           \<and> price s t = Inr (ticket_paid_amount t')
           \<and> decimal_validator 10 2 ''base_price'' base = []
           \<and> (coeff base \<noteq> 0 \<or> expo base = 0)
           \<and> t' \<in> set (tickets s')"
proof (cases "base_truthy (ticket_base_price t)")
  case True
  then obtain b where b: "ticket_base_price t = Some b" "coeff b \<noteq> 0"
    by (auto simp: base_truthy_def dec_truthy_def split: option.splits)
  from assms True obtain pa u where pa: "price s t = Inr pa"
      "full_clean s (t\<lparr>ticket_paid_amount := pa\<rparr>) = Inr u"
      "model_save now s (t\<lparr>ticket_paid_amount := pa\<rparr>) = (s', t')"
    by (auto simp: save_unfold and_then_Inr_iff)
  have "decimal_validator 10 2 ''base_price'' b = []"
    using clean_fields_base [OF full_clean_Inr [OF pa(2)], of b] b(1) by simp
  moreover have "current_base s t = Inr b"
    using b by (simp add: current_base_def dec_truthy_def)
  moreover have "ticket_paid_amount t' = pa"
    using model_save_fields(2) [OF pa(3)] by simp
  ultimately show ?thesis
    using pa(1) price_Inr_passenger [OF pa(1)] model_save_mem [OF pa(3)] b(2) by auto
next
  case False
  let ?b = "\<lambda>tr. dec_of_int (int (trip_price tr))"
  from assms False obtain tr pa u where pa: "related_trip s t = Inr tr" "price s t = Inr pa"
      "full_clean s (t\<lparr>ticket_base_price := Some (?b tr), ticket_paid_amount := pa\<rparr>) = Inr u"
      "model_save now s (t\<lparr>ticket_base_price := Some (?b tr), ticket_paid_amount := pa\<rparr>)
         = (s', t')"
    by (auto simp: save_unfold and_then_Inr_iff Let_def)
  have "decimal_validator 10 2 ''base_price'' (?b tr) = []"
    using clean_fields_base [OF full_clean_Inr [OF pa(3)], of "?b tr"] by simp
  moreover have "current_base s t = Inr (?b tr)"
    using False pa(1)
    by (simp add: current_base_def base_truthy_def and_then_def split: option.splits)
  moreover have "ticket_paid_amount t' = pa"
    using model_save_fields(2) [OF pa(4)] by simp
  moreover have "expo (?b tr) = 0" by (simp add: dec_of_int_def)
  ultimately show ?thesis
    using pa(2) price_Inr_passenger [OF pa(2)] model_save_mem [OF pa(4)] by auto
qed

lemma price_exact:
  assumes "current_base s t = Inr base" "related_passenger s t = Inr p"
    and "decimal_validator 10 2 f base = []" "coeff base \<noteq> 0 \<or> expo base = 0"
  shows "\<exists>pa. price s t = Inr pa \<and> expo pa = - 2
        \<and> dec_val pa = round_2dp (dec_val base
             * dec_val (calculate_discount (int (passenger_age p))) * (1 + dec_val TAX))"
proof -
  let ?d = "calculate_discount (int (passenger_age p))"
  let ?raw = "\<lparr>coeff = coeff base * coeff ?d * 12, expo = expo base - 2\<rparr>"
  have bb: "\<bar>coeff base\<bar> < 10 ^ 10" "- 2 \<le> expo base" "expo base \<le> 9"
    using decimal_validator_bounds [OF assms(3,4)] by simp_all
  have cd: "0 < coeff ?d" "coeff ?d \<le> 10" "expo ?d = - 1"
    using calculate_discount_bounds [of "int (passenger_age p)"] by simp_all
  have raw: "raw_price base ?d = Inr ?raw"
    using bb by (rule raw_price_exact)
  have "\<bar>coeff base * coeff ?d * 12\<bar> = \<bar>coeff base\<bar> * coeff ?d * 12"
    using cd(1) by (simp add: abs_mult)
  also have "\<dots> \<le> \<bar>coeff base\<bar> * 10 * 12"
    using cd(2) by (intro mult_right_mono mult_left_mono) simp_all
  also have "\<dots> < 10 ^ 14" using bb(1) by simp
  finally have "\<bar>coeff ?raw\<bar> < 10 ^ 14" by simp
  then have rnd: "dec_round ?raw 2 = Inr (dec_rescale ?raw (- 2))"
    using bb by (intro dec_round_exact) simp_all
  have p: "price s t = Inr (dec_rescale ?raw (- 2))"
    using assms(1,2) raw rnd by (simp add: price_def and_then_def)
  have "dec_val ?raw = dec_val \<lparr>coeff = coeff base, expo = expo base\<rparr>
      * dec_val \<lparr>coeff = coeff ?d, expo = - 1\<rparr> * (1 + dec_val TAX)"
    by (rule dec_val_raw)
  moreover have "\<lparr>coeff = coeff base, expo = expo base\<rparr> = base" by simp
  moreover have "\<lparr>coeff = coeff ?d, expo = - 1\<rparr> = ?d" using cd(3) by simp
  ultimately have "dec_val ?raw = dec_val base * dec_val ?d * (1 + dec_val TAX)"
    by simp
  then have "dec_val (dec_rescale ?raw (- 2))
      = round_2dp (dec_val base * dec_val ?d * (1 + dec_val TAX))"
    by (simp only: dec_val_rescale)
  with p show ?thesis by simp
qed

lemma model_save_others:
  assumes "model_save now s t = (s', t')" "r \<in> set (tickets s)" "ticket_pk r \<noteq> ticket_pk t"
  shows "r \<in> set (tickets s')"
  using assms by (auto simp: model_save_def Let_def split: option.splits if_splits)

lemma save_others:
  assumes "save now s t = Inr (s', t')" "r \<in> set (tickets s)" "ticket_pk r \<noteq> ticket_pk t"
  shows "r \<in> set (tickets s')"
  using assms
  by (auto simp: save_unfold and_then_Inr_iff Let_def split: if_splits
      intro: model_save_others)

subsection \<open>Joining and grouping\<close>

lemma map_fst_join_rows:
  "map fst (join_rows pk fk bs a) = replicate (length (join_rows pk fk bs a)) a"
  by (simp add: join_rows_def Let_def map_replicate_const comp_def)

lemma join_rows_ne: "join_rows pk fk bs a \<noteq> []"
  by (simp add: join_rows_def Let_def)

lemma remdups_replicate_append:
  "0 < n \<Longrightarrow> a \<notin> set ys \<Longrightarrow> remdups (replicate n a @ ys) = a # remdups ys"
proof (induction n)
  case 0
  then show ?case by simp
next
  case (Suc n)
  then show ?case by (cases n) simp_all
qed

lemma set_map_fst_left_join: "set (map fst (left_join pk fk as bs)) = set as"
proof (induction as)
  case Nil
  then show ?case by (simp add: left_join_def)
next
  case (Cons a as)
  have "set (map fst (join_rows pk fk bs a)) = {a}"
    using join_rows_ne [of pk fk bs a] by (simp add: map_fst_join_rows)
  with Cons show ?case by (simp add: left_join_def)
qed

lemma remdups_left_join:
  "distinct as \<Longrightarrow> remdups (map fst (left_join pk fk as bs)) = as"
proof (induction as)
  case Nil
  then show ?case by (simp add: left_join_def)
next
  case (Cons a as)
  have n: "0 < length (join_rows pk fk bs a)" using join_rows_ne [of pk fk bs a] by simp
  have "a \<notin> set (map fst (left_join pk fk as bs))"
    using Cons.prems by (simp only: set_map_fst_left_join) simp
  from remdups_replicate_append [OF n this] Cons
  show ?case by (simp add: left_join_def map_fst_join_rows)
qed

lemma filter_join_rows:
  "filter (\<lambda>r. fst r = x) (join_rows pk fk bs a) = (if a = x then join_rows pk fk bs a else [])"
  by (auto simp: join_rows_def Let_def filter_empty_conv intro!: filter_True)

lemma filter_left_join:
  "distinct as \<Longrightarrow> x \<in> set as \<Longrightarrow>
     filter (\<lambda>r. fst r = x) (left_join pk fk as bs) = join_rows pk fk bs x"
proof (induction as)
  case Nil
  then show ?case by simp
next
  case (Cons a as)
  show ?case
  proof (cases "a = x")
    case True
    with Cons.prems have "x \<notin> set (map fst (left_join pk fk as bs))"
      by (simp only: set_map_fst_left_join) simp
    then have "filter (\<lambda>r. fst r = x) (left_join pk fk as bs) = []"
      by (auto simp: filter_empty_conv)
    with True show ?thesis
      by (simp add: left_join_def filter_join_rows)
  next
    case False
    with Cons show ?thesis by (simp add: left_join_def filter_join_rows)
  qed
qed

lemma group_by_left_join:
  assumes "distinct as"
  shows "group_by fst (left_join pk fk as bs) = map (\<lambda>a. (a, join_rows pk fk bs a)) as"
  unfolding group_by_def remdups_left_join [OF assms]
  by (simp add: filter_left_join [OF assms] cong: map_cong)

subsection \<open>Reading a table\<close>

lemma set_scan [simp]: "set (scan pk rows) = set rows"
  by (simp add: scan_def)

lemma mset_scan [simp]: "mset (scan pk rows) = mset rows"
  by (simp add: scan_def)

lemma length_scan [simp]: "length (scan pk rows) = length rows"
  by (simp add: scan_def)

lemma distinct_scan [simp]: "distinct (scan pk rows) = distinct rows"
  by (simp add: scan_def)

lemma filter_scan: "filter P (scan pk rows) = scan pk (filter P rows)"
  by (simp add: scan_def filter_sort)

lemma scan_Nil_iff [simp]: "scan pk rows = [] \<longleftrightarrow> rows = []"
  by (metis length_scan length_0_conv)



subsection \<open>Aggregates over the joined rows\<close>

lemma map_filter_id_Some [simp]: "List.map_filter id (map Some xs) = xs"
  by (induction xs) (simp_all add: List.map_filter_simps)

lemma sql_count_join_rows:
  "sql_count (map snd (join_rows pk fk bs a)) = length (filter (\<lambda>b. fk b = pk a) bs)"
  by (simp add: sql_count_def join_rows_def Let_def comp_def List.map_filter_simps)


lemma paid_sum_Nil [simp]: "paid_sum [] = None"
  by (simp add: paid_sum_def sql_sum_def List.map_filter_simps)






subsection \<open>Ordering\<close>

lemma desc_before_total: "desc_before nf a b \<or> desc_before nf b a"
  by (auto simp: desc_before_def split: option.splits)

lemma desc_before_trans: "desc_before nf a b \<Longrightarrow> desc_before nf b c \<Longrightarrow> desc_before nf a c"
  by (auto simp: desc_before_def split: option.splits)

lemma mset_insert_desc: "mset (insert_desc nf key x xs) = add_mset x (mset xs)"
  by (induction xs) simp_all

lemma mset_sort_desc: "mset (sort_desc nf key xs) = mset xs"
  by (induction xs) (simp_all add: mset_insert_desc)

lemma set_insert_desc: "set (insert_desc nf key x xs) = insert x (set xs)"
  by (induction xs) auto


lemma sorted_insert_desc:
  "sorted_wrt (\<lambda>a b. desc_before nf (key a) (key b)) xs \<Longrightarrow>
     sorted_wrt (\<lambda>a b. desc_before nf (key a) (key b)) (insert_desc nf key x xs)"
proof (induction xs)
  case Nil
  then show ?case by simp
next
  case (Cons y ys)
  show ?case
  proof (cases "desc_before nf (key x) (key y)")
    case True
    with Cons.prems show ?thesis by (auto intro: desc_before_trans)
  next
    case False
    then have "desc_before nf (key y) (key x)" using desc_before_total by blast
    with False Cons show ?thesis by (auto simp: set_insert_desc)
  qed
qed

lemma sorted_sort_desc: "sorted_wrt (\<lambda>a b. desc_before nf (key a) (key b)) (sort_desc nf key xs)"
  by (induction xs) (simp_all add: sorted_insert_desc)

lemma order_by_desc_sort: "order_by_desc nf key rows (sort_desc nf key rows)"
  by (simp add: order_by_desc_def mset_sort_desc sorted_sort_desc)

lemma order_by_desc_set: "order_by_desc nf key rows out \<Longrightarrow> set out = set rows"
  unfolding order_by_desc_def by (rule mset_eq_setD) (rule conjunct1)

lemma order_by_desc_sorted:
  "order_by_desc nf key rows out \<Longrightarrow> sorted_wrt (\<lambda>a b. desc_before nf (key a) (key b)) out"
  unfolding order_by_desc_def by (rule conjunct2)

lemma order_by_desc_map:
  assumes "order_by_desc nf key (map f xs) out" "\<And>x. g (f x) = x"
  shows "mset (map g out) = mset xs"
proof -
  from assms(1) have "mset out = mset (map f xs)"
    unfolding order_by_desc_def by (rule conjunct1)
  then have "image_mset g (mset out) = image_mset g (mset (map f xs))" by (rule arg_cong)
  then have "mset (map g out) = mset (map g (map f xs))" by (simp only: mset_map)
  also have "map g (map f xs) = xs" by (simp add: comp_def assms(2))
  finally show ?thesis .
qed



subsection \<open>Rounding to significant digits\<close>







lemma round_half_even_div_ge:
  assumes "0 < m" "k * m \<le> c"
  shows "k \<le> round_half_even_div c m"
proof -
  from assms(2,1) have "k * m div m \<le> c div m" by (rule zdiv_mono1)
  then have "k \<le> c div m" using assms(1) by simp
  with round_half_even_div_bounds(1) [OF assms(1), of c] show ?thesis by linarith
qed







subsection \<open>Sums of whole numbers\<close>


lemma map_filter_id_Some_map [simp]:
  "List.map_filter id (map (\<lambda>t. Some (f t)) ts) = map f ts"
  by (induction ts) (simp_all add: List.map_filter_simps)




subsection \<open>The rows of the occupancy report\<close>

lemma bit_length_0 [simp]: "bit_length 0 = 0"
  by (simp add: bit_length.simps [of 0])

lemma bit_length_1 [simp]: "bit_length (Suc 0) = Suc 0"
  by (simp add: bit_length.simps [of "Suc 0"])

lemma bit_length_lower: "0 < n \<Longrightarrow> 2 ^ (bit_length n - 1) \<le> n"
proof (induction n rule: bit_length.induct)
  case (1 n)
  show ?case
  proof (cases "n div 2 = 0")
    case True
    with 1(2) have "n = 1" by (simp add: div_eq_0_iff)
    then show ?thesis by simp
  next
    case False
    then have h: "0 < n div 2" by simp
    from 1(2) have n0: "n \<noteq> 0" by simp
    from 1(1) [OF n0 h] have ih: "2 ^ (bit_length (n div 2) - 1) \<le> n div 2" .
    have b: "0 < bit_length (n div 2)" using False by (simp add: bit_length.simps [of "n div 2"])
    have "bit_length n - 1 = Suc (bit_length (n div 2) - 1)"
      using n0 b by (simp add: bit_length.simps [of n])
    then have "(2::nat) ^ (bit_length n - 1) = 2 * 2 ^ (bit_length (n div 2) - 1)" by simp
    also have "\<dots> \<le> 2 * (n div 2)" using ih by simp
    also have "\<dots> \<le> n" by simp
    finally show ?thesis .
  qed
qed

lemma double_of_int_pos:
  assumes "0 < n"
  shows "mant (double_of_int n) \<noteq> 0"
proof -
  let ?k = "int (bit_length (nat n)) - int (bit_length (nat 1))"
  have b1: "bit_length (nat 1) = 1" by simp
  have bn: "0 < bit_length (nat n)" using assms by (simp add: bit_length.simps [of "nat n"])
  then have k0: "0 \<le> ?k" unfolding b1 by simp
  have "2 ^ (bit_length (nat n) - 1) \<le> nat n" using assms by (intro bit_length_lower) simp
  then have "int (2 ^ (bit_length (nat n) - 1)) \<le> int (nat n)" by (simp only: of_nat_le_iff)
  then have low: "(2::int) ^ (bit_length (nat n) - 1) \<le> n" using assms by simp
  have nk: "nat ?k = bit_length (nat n) - 1" unfolding b1 by simp
  have nk': "nat (int (bit_length (nat n)) - 1) = bit_length (nat n) - Suc 0" by simp
  have e: "binade n 1 = ?k"
    using assms k0 low by (simp add: binade_def Let_def nk')
  define sh where "sh = 52 - max ?k (- 1022)"
  have m: "mant (double_of_int n) =
      (if 0 \<le> sh then round_half_even_div (n * 2 ^ nat sh) 1
       else round_half_even_div n (1 * 2 ^ nat (- sh)))"
    using assms by (simp add: double_of_int_def round_to_double_def Let_def e sh_def)
  show ?thesis
  proof (cases "0 \<le> sh")
    case True
    have "round_half_even_div (n * 2 ^ nat sh) 1 = n * 2 ^ nat sh"
      by (simp add: round_half_even_div_def)
    with True m assms show ?thesis by simp
  next
    case False
    then have s: "- sh = ?k - 52" "52 < ?k" using k0 by (simp_all add: sh_def)
    have "nat (- sh) \<le> bit_length (nat n) - 1" using s nk by linarith
    then have "(2::int) ^ nat (- sh) \<le> 2 ^ (bit_length (nat n) - 1)"
      by (intro power_increasing) simp_all
    from order_trans [OF this low] have "1 * 2 ^ nat (- sh) \<le> n" by simp
    then have "1 \<le> round_half_even_div n (2 ^ nat (- sh))"
      by (intro round_half_even_div_ge) simp_all
    with False m show ?thesis by simp
  qed
qed

lemma double_of_int_zero [simp]: "double_of_int 0 = \<lparr>mant = 0, bexp = 0\<rparr>"
  by (simp add: double_of_int_def round_to_double_def)

lemma all_rows_map_Inr:
  "(\<And>x. x \<in> set xs \<Longrightarrow> f x = Inr (g x)) \<Longrightarrow> all_rows (map f xs) = Inr (map g xs)"
  by (induction xs) simp_all

lemma all_rows_map_Inl:
  assumes "\<exists>x \<in> set xs. f x = Inl e" "\<And>x e'. x \<in> set xs \<Longrightarrow> f x = Inl e' \<Longrightarrow> e' = e"
  shows "all_rows (map f xs) = Inl e"
  using assms
proof (induction xs)
  case Nil
  then show ?case by simp
next
  case (Cons x xs)
  show ?case
  proof (cases "f x")
    case (Inl e')
    with Cons.prems(2) [of x e'] show ?thesis by simp
  next
    case (Inr r)
    with Cons.prems(1) have "\<exists>x \<in> set xs. f x = Inl e" by auto
    then have "all_rows (map f xs) = Inl e"
    proof (rule Cons.IH)
      fix y e' assume "y \<in> set xs" "f y = Inl e'"
      then show "e' = e" using Cons.prems(2) [of y e'] by simp
    qed
    with Inr show ?thesis by simp
  qed
qed

lemma occupancy_rows_eq:
  assumes "distinct (trips s)"
  shows "occupancy_rows zr s =
     all_rows (map (\<lambda>tr. occupancy_of zr tr (length (tickets_of_trip s (trip_pk tr))))
                 (scan trip_pk (trips s)))"
proof -
  have d: "distinct (scan trip_pk (trips s))" using assms by simp
  show ?thesis
    unfolding occupancy_rows_def group_by_left_join [OF d]
    by (simp add: sql_count_join_rows tickets_of_trip_def comp_def filter_scan)
qed

lemma occupancy_of_open:
  "trip_capacity tr \<noteq> 0 \<Longrightarrow>
     occupancy_of zr tr n =
       Inr \<lparr>oc_trip = tr, sold_count = n,
            occupancy_rate = Some (percentage n (trip_capacity tr))\<rparr>"
  using double_of_int_pos [of "int (trip_capacity tr)"]
  by (simp add: occupancy_of_def sql_divide_def and_then_def percentage_def)

lemma occupancy_of_closed_raises:
  "trip_capacity tr = 0 \<Longrightarrow> occupancy_of True tr n = Inl DivisionByZero"
  by (simp add: occupancy_of_def sql_divide_def and_then_def)

lemma occupancy_of_null:
  "occupancy_of False tr n =
     Inr \<lparr>oc_trip = tr, sold_count = n,
          occupancy_rate = (if trip_capacity tr = 0 then None
                            else Some (percentage n (trip_capacity tr)))\<rparr>"
  using double_of_int_pos [of "int (trip_capacity tr)"]
  by (simp add: occupancy_of_def sql_divide_def and_then_def percentage_def)

lemma occupancy_of_Inl: "occupancy_of zr tr n = Inl e \<Longrightarrow> e = DivisionByZero"
  by (auto simp: occupancy_of_def sql_divide_def and_then_def split: if_splits)

lemma occupancy_rows_open:
  assumes "distinct (trips s)" "\<forall>tr \<in> set (trips s). trip_capacity tr \<noteq> 0"
  shows "occupancy_rows zr s =
     Inr (map (\<lambda>tr. \<lparr>oc_trip = tr, sold_count = length (tickets_of_trip s (trip_pk tr)),
            occupancy_rate = Some (percentage (length (tickets_of_trip s (trip_pk tr)))
                                     (trip_capacity tr))\<rparr>) (scan trip_pk (trips s)))"
  unfolding occupancy_rows_eq [OF assms(1)]
  using assms(2) by (intro all_rows_map_Inr) (simp add: occupancy_of_open)

lemma occupancy_rows_closed_raises:
  assumes "distinct (trips s)" "\<exists>tr \<in> set (trips s). trip_capacity tr = 0"
  shows "occupancy_rows True s = Inl DivisionByZero"
  unfolding occupancy_rows_eq [OF assms(1)]
proof (rule all_rows_map_Inl)
  from assms(2) obtain tr where "tr \<in> set (trips s)" "trip_capacity tr = 0" by blast
  then show "\<exists>x \<in> set (scan trip_pk (trips s)).
      occupancy_of True x (length (tickets_of_trip s (trip_pk x))) = Inl DivisionByZero"
    by (intro bexI [of _ tr]) (simp_all add: occupancy_of_closed_raises)
next
  fix x e' assume "occupancy_of True x (length (tickets_of_trip s (trip_pk x))) = Inl e'"
  then show "e' = DivisionByZero" by (rule occupancy_of_Inl)
qed

lemma occupancy_rows_null:
  assumes "distinct (trips s)"
  shows "occupancy_rows False s =
     Inr (map (\<lambda>tr. \<lparr>oc_trip = tr, sold_count = length (tickets_of_trip s (trip_pk tr)),
            occupancy_rate =
              (if trip_capacity tr = 0 then None
               else Some (percentage (length (tickets_of_trip s (trip_pk tr)))
                            (trip_capacity tr)))\<rparr>) (scan trip_pk (trips s)))"
  unfolding occupancy_rows_eq [OF assms(1)]
  by (intro all_rows_map_Inr) (simp add: occupancy_of_null)

lemma trip_occupancy_Inr:
  "occupancy_rows zr s = Inr rows \<Longrightarrow>
     trip_occupancy zr nf s res \<longleftrightarrow>
       (\<exists>out. res = Inr out
          \<and> order_by_desc nf (\<lambda>r. map_option double_val (occupancy_rate r)) rows out)"
  by (cases res) (simp_all add: trip_occupancy_def)

lemma trip_occupancy_Inl:
  "occupancy_rows zr s = Inl e \<Longrightarrow> trip_occupancy zr nf s res \<longleftrightarrow> res = Inl e"
  by (simp add: trip_occupancy_def)

subsection \<open>Evaluating the reports\<close>

lemmas ex_report_defs = ex_report_store_def ex_trip_big_def ex_trip_idle_def ex_sold_adult_def
  ex_revenue_1_def ex_revenue_2_def ex_revenue_3_def ex_defs

lemmas fp_defs = double_of_decimal_def round_to_double_def binade_def round_half_even_div_def
  double_add_def double_of_scaled_def double_mul_def double_div_def double_of_int_def
  percentage_def bit_length.simps Let_def

lemmas sum_defs = paid_sum_def sql_sum_def stored_decimal_def scan_def ticket_key_def
  tickets_of_trip_def tickets_of_passenger_def

lemma ex_report_distinct: "distinct (map trip_pk (trips ex_report_store))"
  by (simp add: ex_report_defs)






lemma ex_percentages:
  "percentage (Suc 0) (Suc 0) = \<lparr>mant = 7036874417766400, bexp = - 46\<rparr>"
  "percentage (Suc 0) 100 = \<lparr>mant = 4503599627370496, bexp = - 52\<rparr>"
  "percentage 0 50 = \<lparr>mant = 0, bexp = 0\<rparr>"
  "percentage (Suc 0) 3 = \<lparr>mant = 4691249611844267, bexp = - 47\<rparr>"
  by (simp_all add: fp_defs)

lemma ex_occupancy_rows:
  "occupancy_rows zr ex_report_store = Inr [ex_occupancy_1, ex_occupancy_2, ex_occupancy_3]"
proof -
  have "distinct (trips ex_report_store)"
    using ex_report_distinct by (rule distinct_map [THEN iffD1, THEN conjunct1])
  moreover have "\<forall>tr \<in> set (trips ex_report_store). trip_capacity tr \<noteq> 0"
    by (simp add: ex_report_defs)
  ultimately show ?thesis
    by (simp add: occupancy_rows_open)
       (simp add: ex_report_defs sum_defs ex_percentages ex_occupancy_1_def ex_occupancy_2_def
          ex_occupancy_3_def)
qed

lemma ex_trip_occupancy:
  "trip_occupancy zr False ex_report_store (Inr [ex_occupancy_1, ex_occupancy_2, ex_occupancy_3])"
  unfolding trip_occupancy_def ex_occupancy_rows
  by (simp add: order_by_desc_def desc_before_def double_val_def ex_occupancy_1_def
      ex_occupancy_2_def ex_occupancy_3_def)

lemma ex_closed_raises: "occupancy_rows True ex_closed_store = Inl DivisionByZero"
  by (rule occupancy_rows_closed_raises) (simp_all add: ex_closed_store_def ex_trip_closed_def)

lemma ex_closed_null: "occupancy_rows False ex_closed_store = Inr [ex_occupancy_closed]"
  by (subst occupancy_rows_null)
     (simp_all add: ex_closed_store_def ex_store_def ex_occupancy_closed_def ex_trip_closed_def
        sum_defs)

lemma ex_third_rows: "occupancy_rows zr ex_third_store = Inr [ex_occupancy_third]"
proof -
  have "distinct (trips ex_third_store)" by (simp add: ex_third_store_def)
  moreover have "\<forall>tr \<in> set (trips ex_third_store). trip_capacity tr \<noteq> 0"
    by (simp add: ex_third_store_def ex_trip_three_def)
  ultimately show ?thesis
    by (simp add: occupancy_rows_open)
       (simp add: ex_third_store_def ex_trip_three_def ex_defs sum_defs ex_percentages
          ex_occupancy_third_def)
qed

lemma ex_third_value:
  "double_val \<lparr>mant = 4691249611844267, bexp = - 47\<rparr> = 4691249611844267 / 140737488355328"
  by (simp add: double_val_def)









subsection \<open>What a row of a report holds\<close>





lemma current_base_shape: "current_base s t = Inr b \<Longrightarrow> coeff b \<noteq> 0 \<or> expo b = 0"
  by (auto simp: current_base_def dec_truthy_def dec_of_int_def and_then_Inr_iff
      split: option.splits if_splits)

lemma price_computes:
  assumes "related_passenger s t = Inr p" "current_base s t = Inr b"
    "decimal_validator 10 2 f b = []"
  shows "\<exists>pa. price s t = Inr pa"
  using price_exact [OF assms(2,1,3) current_base_shape [OF assms(2)]] by blast

lemma save_no_seats_valid:
  assumes "ticket_pk t = None" "related_trip s t = Inr tr" "available_seats s tr \<le> 0"
    "related_passenger s t = Inr p" "current_base s t = Inr b"
    "decimal_validator 10 2 ''base_price'' b = []"
  shows "\<exists>es. save now s t = Inl (ValidationError es)
           \<and> NoSeats (trip_start_station tr) (trip_end_station tr) (trip_distance_km tr)
              \<in> set es"
proof -
  from price_computes [OF assms(4,5,6)] obtain pa where "price s t = Inr pa" ..
  with save_no_seats [OF assms(1,2,3), of now] show ?thesis by blast
qed

subsection \<open>When a new ticket is written\<close>

lemma related_passenger_mem:
  assumes "related_passenger s t = Inr p"
  shows "ticket_passenger_id t \<in> set (map passenger_pk (passengers s))"
proof -
  from assms have "find (\<lambda>r. passenger_pk r = ticket_passenger_id t) (passengers s) = Some p"
    by (simp add: related_passenger_def get_by_id_def split: option.splits)
  then obtain i where "i < length (passengers s)"
      "passenger_pk (passengers s ! i) = ticket_passenger_id t"
    by (auto simp: find_Some_iff)
  then have "passengers s ! i \<in> set (passengers s)"
      "passenger_pk (passengers s ! i) = ticket_passenger_id t"
    by simp_all
  then have "ticket_passenger_id t \<in> passenger_pk ` set (passengers s)"
    by (metis imageI)
  then show ?thesis by simp
qed

lemma related_trip_mem:
  "related_trip s t = Inr tr \<Longrightarrow> ticket_trip_id t \<in> set (map trip_pk (trips s))"
  using related_trip_pk [of s t tr] by force

lemma clean_fields_ok:
  assumes "related_passenger s t = Inr p" "related_trip s t = Inr tr"
    and "ticket_cashier_id t = Some c" "c \<in> set (map cashier_pk (cashiers s))"
    and "ticket_base_price t = Some b" "decimal_validator 10 2 ''base_price'' b = []"
    and "decimal_validator 10 2 ''paid_amount'' (ticket_paid_amount t) = []"
    and "\<forall>m. ticket_payment_method t = Some m \<longrightarrow> length m \<le> 50"
  shows "clean_fields s t = []"
  using related_passenger_mem [OF assms(1)] related_trip_mem [OF assms(2)] assms(3-8)
  by (auto simp: clean_fields_def foreign_key_def split: option.splits)

lemma full_clean_ok:
  assumes "ticket_pk t = None" "related_trip s t = Inr tr" "0 < available_seats s tr"
    and "clean_fields s t = []"
  shows "full_clean s t = Inr ()"
  using assms by (simp add: full_clean_def clean_def and_then_def Let_def)

lemma related_passenger_paid [simp]:
  "related_passenger s (t\<lparr>ticket_paid_amount := a\<rparr>) = related_passenger s t"
  by (simp add: related_passenger_def)

lemma save_succeeds:
  assumes pk: "ticket_pk t = None" and tr: "related_trip s t = Inr tr"
    and seats: "length (filter (\<lambda>x. ticket_trip_id x = trip_pk tr) (tickets s)) < trip_capacity tr"
    and pa: "related_passenger s t = Inr p"
    and ca: "ticket_cashier_id t = Some c" "c \<in> set (map cashier_pk (cashiers s))"
    and ba: "current_base s t = Inr b" "decimal_validator 10 2 ''base_price'' b = []"
    and pr: "price s t = Inr amount" "decimal_validator 10 2 ''paid_amount'' amount = []"
    and pm: "\<forall>m. ticket_payment_method t = Some m \<longrightarrow> length m \<le> 50"
  shows "\<exists>s1 t1. save now s t = Inr (s1, t1) \<and> tickets s1 = tickets s @ [t1]
           \<and> ticket_pk t1 \<noteq> None \<and> ticket_trip_id t1 = ticket_trip_id t
           \<and> ticket_passenger_id t1 = ticket_passenger_id t
           \<and> ticket_base_price t1 = Some b \<and> ticket_paid_amount t1 = amount"
proof -
  have av: "0 < available_seats s tr"
    using seats by (simp add: available_seats_def tickets_of_trip_def)
  define t2 where "t2 = t\<lparr>ticket_base_price := Some b, ticket_paid_amount := amount\<rparr>"
  have pk2: "ticket_pk t2 = None" using pk by (simp add: t2_def)
  have tr2: "related_trip s t2 = Inr tr" using tr by (simp add: t2_def)
  have cf: "clean_fields s t2 = []"
  proof (rule clean_fields_ok)
    show "related_passenger s t2 = Inr p" using pa by (simp add: t2_def)
    show "related_trip s t2 = Inr tr" by (rule tr2)
    show "ticket_cashier_id t2 = Some c" using ca(1) by (simp add: t2_def)
    show "c \<in> set (map cashier_pk (cashiers s))" by (rule ca(2))
    show "ticket_base_price t2 = Some b" by (simp add: t2_def)
    show "decimal_validator 10 2 ''base_price'' b = []" by (rule ba(2))
    show "decimal_validator 10 2 ''paid_amount'' (ticket_paid_amount t2) = []"
      using pr(2) by (simp add: t2_def)
    show "\<forall>m. ticket_payment_method t2 = Some m \<longrightarrow> length m \<le> 50"
      using pm by (simp add: t2_def)
  qed
  have fc: "full_clean s t2 = Inr ()"
    using pk2 tr2 av cf by (rule full_clean_ok)
  have sv: "save now s t = Inr (model_save now s t2)"
  proof (cases "base_truthy (ticket_base_price t)")
    case True
    with ba(1) have "ticket_base_price t = Some b"
      by (auto simp: current_base_def base_truthy_def split: option.splits)
    then have "t\<lparr>ticket_paid_amount := amount\<rparr> = t2" by (simp add: t2_def)
    with True pr(1) fc show ?thesis by (simp add: save_unfold and_then_def)
  next
    case False
    with ba(1) tr have "b = dec_of_int (int (trip_price tr))"
      by (auto simp: current_base_def base_truthy_def and_then_def split: option.splits)
    then have "t\<lparr>ticket_base_price := Some (dec_of_int (int (trip_price tr))),
                 ticket_paid_amount := amount\<rparr> = t2"
      by (simp add: t2_def)
    with False tr pr(1) fc show ?thesis by (simp add: save_unfold and_then_def Let_def)
  qed
  obtain s1 t1 where m: "model_save now s t2 = (s1, t1)" by (cases "model_save now s t2")
  from model_save_new [OF m pk2] have 1: "tickets s1 = tickets s @ [t1]" .
  from m pk2 have 2: "ticket_pk t1 \<noteq> None" by (auto simp: model_save_def Let_def)
  from model_save_fields [OF m]
  have 3: "ticket_trip_id t1 = ticket_trip_id t" "ticket_passenger_id t1 = ticket_passenger_id t"
    "ticket_base_price t1 = Some b" "ticket_paid_amount t1 = amount"
    by (simp_all add: t2_def)
  from sv m 1 2 3 show ?thesis by simp
qed

lemma save_price_error:
  assumes "related_trip s t = Inr tr" "price s t = Inl e"
  shows "save now s t = Inl e"
  using assms by (simp add: save_unfold and_then_def)

lemma sale_takes_last_seat:
  assumes "ticket_pk t = None" "related_trip s t = Inr tr" "trip_capacity tr = 1"
    and "length (filter (\<lambda>x. ticket_trip_id x = trip_pk tr) (tickets s)) < trip_capacity tr"
    and "save now s t = Inr (s1, t1)" "ticket_pk u = None" "ticket_trip_id u = ticket_trip_id t"
  shows "(\<exists>e. save now' s1 u = Inl e)
      \<and> (\<forall>a. price s1 u = Inr a \<longrightarrow>
            (\<exists>es. save now' s1 u = Inl (ValidationError es)
               \<and> NoSeats (trip_start_station tr) (trip_end_station tr) (trip_distance_km tr)
                  \<in> set es))"
proof -
  from assms(3,4) have "tickets_of_trip s (trip_pk tr) = []"
    by (simp add: tickets_of_trip_def)
  from second_sale_no_seats [OF assms(1,2,3) this assms(5,6,7)] show ?thesis .
qed

lemmas ex_busy_defs = ex_busy_store_def ex_busy_store_sold_def ex_sold_busy_def ex_trip_big_def
  ex_sold_adult_def ex_defs

lemma ex_save_busy_first:
  "save 5 ex_busy_store (ex_ticket 1) = Inr (ex_busy_store_sold, ex_sold_busy)"
  by (simp add: save_defs price_defs ex_busy_defs dec_defs)

lemma ex_save_busy_second:
  "save 6 ex_busy_store_sold (ex_ticket 2)
     = Inl (ValidationError [NoSeats ''Lviv'' ''Kyiv'' 540])"
  by (simp add: save_defs price_defs ex_busy_defs dec_defs)

lemma ex_save_forced:
  "save 6 ex_store_sold ex_forced
     = Inr (ex_store_sold\<lparr>tickets := [ex_sold, ex_forced_row]\<rparr>, ex_forced_row)"
  by (simp add: save_defs price_defs ex_defs ex_forced_def ex_forced_row_def dec_defs)

lemma ex_save_no_passenger:
  "save 6 ex_store_sold (ex_ticket 9) = Inl RelatedObjectDoesNotExist"
  by (simp add: save_defs price_defs ex_defs dec_defs)

lemma ex_save_huge: "save 6 ex_store_sold ex_huge = Inl InvalidOperation"
  by (simp add: save_defs price_defs ex_defs ex_huge_def dec_defs)

lemma ex_save_blank:
  "save 5 ex_store ((ex_ticket 1)\<lparr>ticket_cashier_id := None\<rparr>)
     = Inl (ValidationError [Blank ''cashier''])"
  by (simp add: save_defs price_defs ex_defs dec_defs)

lemma ex_price_busy: "price ex_busy_store (ex_ticket 1) = Inr \<lparr>coeff = 6000, expo = - 2\<rparr>"
  by (simp add: price_defs ex_busy_defs dec_defs)

subsection \<open>The claims\<close>


text \<open>
  C1. The discount is a function of the age alone: below 18 the factor is 0.5, above 60
  it is 0.7, and from 18 to 60, both ends included, it is 1.0.
\<close>

theorem C1_discount_policy:
  "(a < 18 \<longrightarrow> calculate_discount a = \<lparr>coeff = 5, expo = - 1\<rparr>
               \<and> dec_val (calculate_discount a) = 1 / 2)
   \<and> (60 < a \<longrightarrow> calculate_discount a = \<lparr>coeff = 7, expo = - 1\<rparr>
               \<and> dec_val (calculate_discount a) = 7 / 10)
   \<and> (18 \<le> a \<and> a \<le> 60 \<longrightarrow> calculate_discount a = \<lparr>coeff = 10, expo = - 1\<rparr>
               \<and> dec_val (calculate_discount a) = 1)"
  by (simp add: calculate_discount_def dec_val_def)

theorem C1_discount_policy_witness:
  "dec_val (calculate_discount 17) = 1 / 2 \<and> dec_val (calculate_discount 18) = 1
   \<and> dec_val (calculate_discount 60) = 1 \<and> dec_val (calculate_discount 61) = 7 / 10"
  using C1_discount_policy [of 17] C1_discount_policy [of 18]
    C1_discount_policy [of 60] C1_discount_policy [of 61]
  by (simp add: calculate_discount_def dec_val_def)

text \<open>
  C10. The seat check runs only for an instance whose primary key is unset. For an
  instance that has a key, \<^verbatim>\<open>clean\<close> raises nothing, and no error of \<^verbatim>\<open>save\<close> is or contains
  the no-seats error, whatever the number of seats left on its trip.
\<close>

theorem C10_no_seat_check_on_update:
  assumes "ticket_pk t \<noteq> None"
  shows "clean s t = Inr () \<and> (\<forall>e. save now s t = Inl e \<longrightarrow> \<not> no_seats_error e)"
proof (intro conjI allI impI)
  show "clean s t = Inr ()" using assms by (rule clean_persisted)
next
  fix e assume "save now s t = Inl e"
  then consider "related_trip s t = Inl e"
    | t1 where "price s t1 = Inl e"
    | t2 where "ticket_pk t2 = ticket_pk t" "full_clean s t2 = Inl e"
    using save_Inl_cases by blast
  then show "\<not> no_seats_error e"
  proof cases
    case 1 then show ?thesis by (rule related_trip_not_no_seats)
  next
    case 2 then show ?thesis by (rule price_not_no_seats)
  next
    case 3
    then have "e = ValidationError (clean_fields s t2)"
      using assms full_clean_persisted by simp
    then show ?thesis
      using clean_fields_no_seats by (simp add: no_seats_error_def)
  qed
qed

theorem C10_no_seat_check_on_update_witness:
  "ticket_pk (ex_sold\<lparr>ticket_cashier_id := None\<rparr>) \<noteq> None
   \<and> available_seats ex_store_sold ex_trip \<le> 0
   \<and> save 6 ex_store_sold (ex_sold\<lparr>ticket_cashier_id := None\<rparr>)
       = Inl (ValidationError [Blank ''cashier''])
   \<and> \<not> no_seats_error (ValidationError [Blank ''cashier''])
   \<and> save 6 ex_store_sold ex_sold = Inr (ex_store_sold, ex_sold)"
proof -
  have pk: "ticket_pk (ex_sold\<lparr>ticket_cashier_id := None\<rparr>) \<noteq> None"
    by (simp add: ex_sold_def)
  have seats: "available_seats ex_store_sold ex_trip \<le> 0"
    by (simp add: available_seats_def tickets_of_trip_def ex_defs)
  from C10_no_seat_check_on_update [OF pk, of ex_store_sold 6] ex_save_no_cashier
  have "\<not> no_seats_error (ValidationError [Blank ''cashier''])" by simp
  with pk seats ex_save_no_cashier ex_save_again show ?thesis by simp
qed

text \<open>
  C3 as stated fails in three ways. An instance made with a key of its own is not
  checked: saved for a trip without a free seat it is written, and the trip then holds
  more tickets than it has seats. A new ticket whose passenger does not exist, or whose
  price cannot be rounded, fails on such a trip with the error of the price computation,
  not with the no-seats error. And on a trip with a free seat a new ticket is refused
  when a field is not valid, here a missing cashier.
\<close>

theorem C3_no_seats_counterexample:
  "available_seats ex_store_sold ex_trip = 0
   \<and> ticket_pk ex_forced = Some 9
   \<and> ticket_by_id ex_store_sold 9 = None
   \<and> related_trip ex_store_sold ex_forced = Inr ex_trip
   \<and> save 6 ex_store_sold ex_forced
       = Inr (ex_store_sold\<lparr>tickets := [ex_sold, ex_forced_row]\<rparr>, ex_forced_row)
   \<and> available_seats (ex_store_sold\<lparr>tickets := [ex_sold, ex_forced_row]\<rparr>) ex_trip = - 1
   \<and> ticket_pk (ex_ticket 9) = None
   \<and> related_trip ex_store_sold (ex_ticket 9) = Inr ex_trip
   \<and> save 6 ex_store_sold (ex_ticket 9) = Inl RelatedObjectDoesNotExist
   \<and> \<not> no_seats_error RelatedObjectDoesNotExist
   \<and> ticket_pk ex_huge = None
   \<and> related_trip ex_store_sold ex_huge = Inr ex_trip
   \<and> save 6 ex_store_sold ex_huge = Inl InvalidOperation
   \<and> \<not> no_seats_error InvalidOperation
   \<and> available_seats ex_store ex_trip = 1
   \<and> save 5 ex_store ((ex_ticket 1)\<lparr>ticket_cashier_id := None\<rparr>)
       = Inl (ValidationError [Blank ''cashier''])"
proof -
  have 1: "available_seats ex_store_sold ex_trip = 0"
    by (simp add: available_seats_def tickets_of_trip_def ex_defs)
  have 2: "ticket_pk ex_forced = Some 9" by (simp add: ex_forced_def ex_ticket_def)
  have 3: "ticket_by_id ex_store_sold 9 = None"
    by (simp add: ticket_by_id_def ex_defs)
  have 4: "related_trip ex_store_sold ex_forced = Inr ex_trip"
    by (simp add: related_trip_def get_by_id_def ex_forced_def ex_defs)
  have 5: "available_seats (ex_store_sold\<lparr>tickets := [ex_sold, ex_forced_row]\<rparr>) ex_trip = - 1"
    by (simp add: available_seats_def tickets_of_trip_def ex_forced_row_def ex_defs)
  have 6: "ticket_pk (ex_ticket 9) = None" by (simp add: ex_ticket_def)
  have 7: "related_trip ex_store_sold (ex_ticket 9) = Inr ex_trip"
    by (simp add: related_trip_def get_by_id_def ex_defs)
  have 8: "\<not> no_seats_error RelatedObjectDoesNotExist" "\<not> no_seats_error InvalidOperation"
    by (simp_all add: no_seats_error_def)
  have 9: "ticket_pk ex_huge = None" by (simp add: ex_huge_def ex_ticket_def)
  have 10: "related_trip ex_store_sold ex_huge = Inr ex_trip"
    by (simp add: related_trip_def get_by_id_def ex_huge_def ex_defs)
  have 11: "available_seats ex_store ex_trip = 1"
    by (simp add: available_seats_def tickets_of_trip_def ex_defs)
  show ?thesis
    by (intro conjI 1 2 3 4 ex_save_forced 5 6 7 ex_save_no_passenger 8 9 10 ex_save_huge 11
        ex_save_blank)
qed

text \<open>
  C3, as the program has it. \<open>available_seats\<close> is the capacity of the trip minus the
  number of tickets that reference it. Saving a ticket whose key is unset for a trip
  whose \<open>available_seats\<close> is at most 0 always fails, so nothing is written: with the
  error of the price computation when the price raises, and otherwise, so in particular
  whenever the passenger exists and the base price fits its field, with the validation
  error that carries the no-seats message built from the trip. Saving a ticket whose key
  is unset for a trip that holds fewer tickets than seats succeeds when the fields are
  valid: passenger and cashier exist, the base price and the computed price fit their
  fields, and the payment method has at most 50 characters. The ticket is then the last
  row of the table, and the trip has one seat less; if the capacity is 1, so that the
  trip had no ticket, saving a second ticket with unset key for the same trip fails in
  the way described.
\<close>

theorem C3_no_seats_amended:
  "available_seats s tr
     = int (trip_capacity tr)
       - int (length (filter (\<lambda>x. ticket_trip_id x = trip_pk tr) (tickets s)))
   \<and> (ticket_pk t = None \<and> related_trip s t = Inr tr \<and> available_seats s tr \<le> 0 \<longrightarrow>
        (\<exists>e. save now s t = Inl e)
        \<and> (\<forall>e. price s t = Inl e \<longrightarrow> save now s t = Inl e)
        \<and> (\<forall>a. price s t = Inr a \<longrightarrow>
              (\<exists>es. save now s t = Inl (ValidationError es)
                 \<and> NoSeats (trip_start_station tr) (trip_end_station tr) (trip_distance_km tr)
                    \<in> set es))
        \<and> (\<forall>p b. related_passenger s t = Inr p \<and> current_base s t = Inr b
                   \<and> decimal_validator 10 2 ''base_price'' b = [] \<longrightarrow>
              (\<exists>es. save now s t = Inl (ValidationError es)
                 \<and> NoSeats (trip_start_station tr) (trip_end_station tr) (trip_distance_km tr)
                    \<in> set es)))
   \<and> (ticket_pk t = None \<and> related_trip s t = Inr tr
        \<and> length (filter (\<lambda>x. ticket_trip_id x = trip_pk tr) (tickets s)) < trip_capacity tr
        \<and> related_passenger s t = Inr p
        \<and> ticket_cashier_id t = Some c \<and> c \<in> set (map cashier_pk (cashiers s))
        \<and> current_base s t = Inr b \<and> decimal_validator 10 2 ''base_price'' b = []
        \<and> price s t = Inr amount \<and> decimal_validator 10 2 ''paid_amount'' amount = []
        \<and> (\<forall>m. ticket_payment_method t = Some m \<longrightarrow> length m \<le> 50) \<longrightarrow>
        (\<exists>s1 t1. save now s t = Inr (s1, t1) \<and> tickets s1 = tickets s @ [t1]
            \<and> ticket_trip_id t1 = ticket_trip_id t \<and> ticket_paid_amount t1 = amount
            \<and> available_seats s1 tr = available_seats s tr - 1
            \<and> (trip_capacity tr = 1 \<longrightarrow>
                 (\<forall>u now'. ticket_pk u = None \<and> ticket_trip_id u = ticket_trip_id t \<longrightarrow>
                    (\<exists>e. save now' s1 u = Inl e)
                    \<and> (\<forall>a. price s1 u = Inr a \<longrightarrow>
                          (\<exists>es. save now' s1 u = Inl (ValidationError es)
                             \<and> NoSeats (trip_start_station tr) (trip_end_station tr)
                                  (trip_distance_km tr) \<in> set es))))))"
proof (intro conjI)
  show "available_seats s tr
     = int (trip_capacity tr)
       - int (length (filter (\<lambda>x. ticket_trip_id x = trip_pk tr) (tickets s)))"
    by (simp add: available_seats_def tickets_of_trip_def)
next
  show "ticket_pk t = None \<and> related_trip s t = Inr tr \<and> available_seats s tr \<le> 0 \<longrightarrow>
        (\<exists>e. save now s t = Inl e)
        \<and> (\<forall>e. price s t = Inl e \<longrightarrow> save now s t = Inl e)
        \<and> (\<forall>a. price s t = Inr a \<longrightarrow>
              (\<exists>es. save now s t = Inl (ValidationError es)
                 \<and> NoSeats (trip_start_station tr) (trip_end_station tr) (trip_distance_km tr)
                    \<in> set es))
        \<and> (\<forall>p b. related_passenger s t = Inr p \<and> current_base s t = Inr b
                   \<and> decimal_validator 10 2 ''base_price'' b = [] \<longrightarrow>
              (\<exists>es. save now s t = Inl (ValidationError es)
                 \<and> NoSeats (trip_start_station tr) (trip_end_station tr) (trip_distance_km tr)
                    \<in> set es))"
  proof (rule impI)
    assume a: "ticket_pk t = None \<and> related_trip s t = Inr tr \<and> available_seats s tr \<le> 0"
    then have 1: "ticket_pk t = None" and 2: "related_trip s t = Inr tr"
      and 3: "available_seats s tr \<le> 0" by simp_all
    from save_no_seats [OF 1 2 3, of now] save_no_seats_valid [OF 1 2 3, of _ _ now]
      save_price_error [OF 2, of _ now]
    show "(\<exists>e. save now s t = Inl e)
        \<and> (\<forall>e. price s t = Inl e \<longrightarrow> save now s t = Inl e)
        \<and> (\<forall>a. price s t = Inr a \<longrightarrow>
              (\<exists>es. save now s t = Inl (ValidationError es)
                 \<and> NoSeats (trip_start_station tr) (trip_end_station tr) (trip_distance_km tr)
                    \<in> set es))
        \<and> (\<forall>p b. related_passenger s t = Inr p \<and> current_base s t = Inr b
                   \<and> decimal_validator 10 2 ''base_price'' b = [] \<longrightarrow>
              (\<exists>es. save now s t = Inl (ValidationError es)
                 \<and> NoSeats (trip_start_station tr) (trip_end_station tr) (trip_distance_km tr)
                    \<in> set es))"
      by blast
  qed
next
  show "ticket_pk t = None \<and> related_trip s t = Inr tr
        \<and> length (filter (\<lambda>x. ticket_trip_id x = trip_pk tr) (tickets s)) < trip_capacity tr
        \<and> related_passenger s t = Inr p
        \<and> ticket_cashier_id t = Some c \<and> c \<in> set (map cashier_pk (cashiers s))
        \<and> current_base s t = Inr b \<and> decimal_validator 10 2 ''base_price'' b = []
        \<and> price s t = Inr amount \<and> decimal_validator 10 2 ''paid_amount'' amount = []
        \<and> (\<forall>m. ticket_payment_method t = Some m \<longrightarrow> length m \<le> 50) \<longrightarrow>
        (\<exists>s1 t1. save now s t = Inr (s1, t1) \<and> tickets s1 = tickets s @ [t1]
            \<and> ticket_trip_id t1 = ticket_trip_id t \<and> ticket_paid_amount t1 = amount
            \<and> available_seats s1 tr = available_seats s tr - 1
            \<and> (trip_capacity tr = 1 \<longrightarrow>
                 (\<forall>u now'. ticket_pk u = None \<and> ticket_trip_id u = ticket_trip_id t \<longrightarrow>
                    (\<exists>e. save now' s1 u = Inl e)
                    \<and> (\<forall>a. price s1 u = Inr a \<longrightarrow>
                          (\<exists>es. save now' s1 u = Inl (ValidationError es)
                             \<and> NoSeats (trip_start_station tr) (trip_end_station tr)
                                  (trip_distance_km tr) \<in> set es)))))"
  proof (rule impI)
    assume h: "ticket_pk t = None \<and> related_trip s t = Inr tr
        \<and> length (filter (\<lambda>x. ticket_trip_id x = trip_pk tr) (tickets s)) < trip_capacity tr
        \<and> related_passenger s t = Inr p
        \<and> ticket_cashier_id t = Some c \<and> c \<in> set (map cashier_pk (cashiers s))
        \<and> current_base s t = Inr b \<and> decimal_validator 10 2 ''base_price'' b = []
        \<and> price s t = Inr amount \<and> decimal_validator 10 2 ''paid_amount'' amount = []
        \<and> (\<forall>m. ticket_payment_method t = Some m \<longrightarrow> length m \<le> 50)"
    then have pk: "ticket_pk t = None" and tr: "related_trip s t = Inr tr"
      and seats: "length (filter (\<lambda>x. ticket_trip_id x = trip_pk tr) (tickets s)) < trip_capacity tr"
      and pa: "related_passenger s t = Inr p"
      and ca: "ticket_cashier_id t = Some c" "c \<in> set (map cashier_pk (cashiers s))"
      and ba: "current_base s t = Inr b" "decimal_validator 10 2 ''base_price'' b = []"
      and pr: "price s t = Inr amount" "decimal_validator 10 2 ''paid_amount'' amount = []"
      and pm: "\<forall>m. ticket_payment_method t = Some m \<longrightarrow> length m \<le> 50"
      by simp_all
    from save_succeeds [OF pk tr seats pa ca ba pr pm, of now]
    obtain s1 t1 where sv: "save now s t = Inr (s1, t1)" and rw: "tickets s1 = tickets s @ [t1]"
      and f: "ticket_trip_id t1 = ticket_trip_id t" "ticket_paid_amount t1 = amount"
      by blast
    have av: "available_seats s1 tr = available_seats s tr - 1"
      using sv pk tr by (rule available_seats_after_sale)
    have last: "trip_capacity tr = 1 \<longrightarrow>
        (\<forall>u now'. ticket_pk u = None \<and> ticket_trip_id u = ticket_trip_id t \<longrightarrow>
           (\<exists>e. save now' s1 u = Inl e)
           \<and> (\<forall>a. price s1 u = Inr a \<longrightarrow>
                 (\<exists>es. save now' s1 u = Inl (ValidationError es)
                    \<and> NoSeats (trip_start_station tr) (trip_end_station tr)
                         (trip_distance_km tr) \<in> set es)))"
    proof (intro impI allI)
      fix u :: ticket and now' :: int
      assume c1: "trip_capacity tr = 1"
        and u: "ticket_pk u = None \<and> ticket_trip_id u = ticket_trip_id t"
      then have u1: "ticket_pk u = None" and u2: "ticket_trip_id u = ticket_trip_id t"
        by simp_all
      from pk tr c1 seats sv u1 u2
      show "(\<exists>e. save now' s1 u = Inl e)
           \<and> (\<forall>a. price s1 u = Inr a \<longrightarrow>
                 (\<exists>es. save now' s1 u = Inl (ValidationError es)
                    \<and> NoSeats (trip_start_station tr) (trip_end_station tr)
                         (trip_distance_km tr) \<in> set es))"
        by (rule sale_takes_last_seat)
    qed
    show "\<exists>s1 t1. save now s t = Inr (s1, t1) \<and> tickets s1 = tickets s @ [t1]
            \<and> ticket_trip_id t1 = ticket_trip_id t \<and> ticket_paid_amount t1 = amount
            \<and> available_seats s1 tr = available_seats s tr - 1
            \<and> (trip_capacity tr = 1 \<longrightarrow>
                 (\<forall>u now'. ticket_pk u = None \<and> ticket_trip_id u = ticket_trip_id t \<longrightarrow>
                    (\<exists>e. save now' s1 u = Inl e)
                    \<and> (\<forall>a. price s1 u = Inr a \<longrightarrow>
                          (\<exists>es. save now' s1 u = Inl (ValidationError es)
                             \<and> NoSeats (trip_start_station tr) (trip_end_station tr)
                                  (trip_distance_km tr) \<in> set es))))"
      by (intro exI [of _ s1] exI [of _ t1] conjI sv rw f av last)
  qed
qed

theorem C3_no_seats_amended_witness:
  "ticket_pk (ex_ticket 1) = None
   \<and> related_trip ex_busy_store (ex_ticket 1) = Inr ex_trip
   \<and> trip_capacity ex_trip = 1
   \<and> tickets ex_busy_store = [ex_sold_adult]
   \<and> ticket_trip_id ex_sold_adult \<noteq> trip_pk ex_trip
   \<and> available_seats ex_busy_store ex_trip = 1
   \<and> save 5 ex_busy_store (ex_ticket 1) = Inr (ex_busy_store_sold, ex_sold_busy)
   \<and> tickets ex_busy_store_sold = tickets ex_busy_store @ [ex_sold_busy]
   \<and> available_seats ex_busy_store_sold ex_trip = 0
   \<and> save 6 ex_busy_store_sold (ex_ticket 2)
       = Inl (ValidationError [NoSeats ''Lviv'' ''Kyiv'' 540])"
proof -
  have 1: "ticket_pk (ex_ticket 1) = None" by (simp add: ex_ticket_def)
  have 2: "related_trip ex_busy_store (ex_ticket 1) = Inr ex_trip"
    by (simp add: related_trip_def get_by_id_def ex_busy_defs)
  have 3: "trip_capacity ex_trip = 1" by (simp add: ex_trip_def)
  have 4: "tickets ex_busy_store = [ex_sold_adult]" by (simp add: ex_busy_store_def)
  have 5: "ticket_trip_id ex_sold_adult \<noteq> trip_pk ex_trip"
    by (simp add: ex_sold_adult_def ex_trip_def)
  have 6: "length (filter (\<lambda>x. ticket_trip_id x = trip_pk ex_trip) (tickets ex_busy_store))
      < trip_capacity ex_trip"
    by (simp add: ex_busy_defs)
  have 7: "related_passenger ex_busy_store (ex_ticket 1) = Inr ex_child"
    by (simp add: related_passenger_def get_by_id_def ex_busy_defs)
  have 8: "ticket_cashier_id (ex_ticket 1) = Some 1
      \<and> 1 \<in> set (map cashier_pk (cashiers ex_busy_store))"
    by (simp add: ex_busy_defs)
  have 9: "current_base ex_busy_store (ex_ticket 1) = Inr \<lparr>coeff = 100, expo = 0\<rparr>
      \<and> decimal_validator 10 2 ''base_price'' \<lparr>coeff = 100, expo = 0\<rparr> = []"
    by (simp add: current_base_def related_trip_def get_by_id_def and_then_def dec_of_int_def
        decimal_validator_def ndigits.simps ex_busy_defs)
  have 10: "decimal_validator 10 2 ''paid_amount'' \<lparr>coeff = 6000, expo = - 2\<rparr> = []"
    by (simp add: decimal_validator_def ndigits.simps)
  have 11: "\<forall>m. ticket_payment_method (ex_ticket 1) = Some m \<longrightarrow> length m \<le> 50"
    by (simp add: ex_ticket_def)
  note c3 = C3_no_seats_amended [where s = ex_busy_store and t = "ex_ticket 1" and tr = ex_trip
      and now = 5 and p = ex_child and c = 1 and b = "\<lparr>coeff = 100, expo = 0\<rparr>"
      and amount = "\<lparr>coeff = 6000, expo = - 2\<rparr>"]
  from c3 have 12: "available_seats ex_busy_store ex_trip
      = int (trip_capacity ex_trip)
        - int (length (filter (\<lambda>x. ticket_trip_id x = trip_pk ex_trip) (tickets ex_busy_store)))"
    by (rule conjunct1)
  then have 13: "available_seats ex_busy_store ex_trip = 1"
    by (simp add: ex_busy_defs)
  from c3 1 2 6 7 8 9 ex_price_busy 10 11
  obtain s1 t1 where sv: "save 5 ex_busy_store (ex_ticket 1) = Inr (s1, t1)"
    and rw: "tickets s1 = tickets ex_busy_store @ [t1]"
    and av: "available_seats s1 ex_trip = available_seats ex_busy_store ex_trip - 1"
    by blast
  from sv ex_save_busy_first have e: "s1 = ex_busy_store_sold" "t1 = ex_sold_busy" by simp_all
  from rw have 14: "tickets ex_busy_store_sold = tickets ex_busy_store @ [ex_sold_busy]"
    by (simp only: e)
  from av 13 have 15: "available_seats ex_busy_store_sold ex_trip = 0"
    by (simp add: e)
  show ?thesis
    by (intro conjI 1 2 3 4 5 13 ex_save_busy_first 14 15 ex_save_busy_second)
qed

text \<open>
  C9. Deleting a passenger that exists removes exactly the tickets that reference it:
  none of the remaining tickets is theirs and every other ticket remains. Deleting a
  cashier that exists keeps every ticket in its place, with the cashier reference set to
  null where it was that cashier and every other field as it was; afterwards no ticket
  references the cashier.
\<close>

theorem C9_delete_cascade_and_set_null:
  "(get_by_id passenger_pk (passengers s) k \<noteq> None \<longrightarrow>
      (\<forall>t \<in> set (tickets (fst (delete_passenger s k))). ticket_passenger_id t \<noteq> k)
      \<and> (\<forall>t \<in> set (tickets s). ticket_passenger_id t \<noteq> k \<longrightarrow>
             t \<in> set (tickets (fst (delete_passenger s k))))
      \<and> set (tickets (fst (delete_passenger s k))) \<subseteq> set (tickets s))
   \<and> (get_by_id cashier_pk (cashiers s) k \<noteq> None \<longrightarrow>
      length (tickets (fst (delete_cashier s k))) = length (tickets s)
      \<and> (\<forall>i < length (tickets s).
            tickets (fst (delete_cashier s k)) ! i =
              (tickets s ! i)\<lparr>ticket_cashier_id :=
                 (if ticket_cashier_id (tickets s ! i) = Some k then None
                  else ticket_cashier_id (tickets s ! i))\<rparr>)
      \<and> (\<forall>t \<in> set (tickets (fst (delete_cashier s k))). ticket_cashier_id t \<noteq> Some k))"
  by (auto simp: delete_passenger_def delete_cashier_def split: option.splits)

theorem C9_delete_cascade_and_set_null_witness:
  "get_by_id passenger_pk (passengers ex_store_sold) 1 \<noteq> None
   \<and> get_by_id cashier_pk (cashiers ex_store_sold) 1 \<noteq> None
   \<and> tickets ex_store_sold = [ex_sold]
   \<and> tickets (fst (delete_passenger ex_store_sold 1)) = []
   \<and> tickets (fst (delete_cashier ex_store_sold 1)) = [ex_sold\<lparr>ticket_cashier_id := None\<rparr>]
   \<and> length (tickets (fst (delete_cashier ex_store_sold 1))) = length (tickets ex_store_sold)
   \<and> set (tickets (fst (delete_passenger ex_store_sold 1))) \<subseteq> set (tickets ex_store_sold)"
proof -
  have p: "get_by_id passenger_pk (passengers ex_store_sold) 1 \<noteq> None"
    by (simp add: get_by_id_def ex_defs)
  have c: "get_by_id cashier_pk (cashiers ex_store_sold) 1 \<noteq> None"
    by (simp add: get_by_id_def ex_defs)
  have t: "tickets ex_store_sold = [ex_sold]"
    by (simp add: ex_store_sold_def)
  have d1: "tickets (fst (delete_passenger ex_store_sold 1)) = []"
    unfolding ex_delete_passenger by (simp add: ex_store_def)
  have d2: "tickets (fst (delete_cashier ex_store_sold 1))
      = [ex_sold\<lparr>ticket_cashier_id := None\<rparr>]"
    unfolding ex_delete_cashier by simp
  from C9_delete_cascade_and_set_null [of ex_store_sold 1] p c
  have u: "length (tickets (fst (delete_cashier ex_store_sold 1))) = length (tickets ex_store_sold)
    \<and> set (tickets (fst (delete_passenger ex_store_sold 1))) \<subseteq> set (tickets ex_store_sold)"
    by blast
  from p c t d1 d2 u show ?thesis by blast
qed

text \<open>
  C5. A base price that is zero is treated as one that is unset: \<open>save\<close> and \<open>price\<close>
  give the same result for both. In either case the base used is the trip's fare, and
  the fare is what a successful save records as the base price. A base price that is set
  and not zero is used as it is, and is what a successful save records.
\<close>

theorem C5_base_price_fallback:
  "(coeff z = 0 \<longrightarrow>
      save now s (t\<lparr>ticket_base_price := Some z\<rparr>) = save now s (t\<lparr>ticket_base_price := None\<rparr>)
      \<and> price s (t\<lparr>ticket_base_price := Some z\<rparr>) = price s (t\<lparr>ticket_base_price := None\<rparr>))
   \<and> (\<not> base_truthy (ticket_base_price t) \<and> related_trip s t = Inr tr \<longrightarrow>
      current_base s t = Inr (dec_of_int (int (trip_price tr)))
      \<and> (\<forall>s' t'. save now s t = Inr (s', t') \<longrightarrow>
             ticket_base_price t' = Some (dec_of_int (int (trip_price tr)))))
   \<and> (ticket_base_price t = Some b \<and> coeff b \<noteq> 0 \<longrightarrow>
      current_base s t = Inr b
      \<and> (\<forall>s' t'. save now s t = Inr (s', t') \<longrightarrow> ticket_base_price t' = Some b))"
proof (intro conjI)
  show "coeff z = 0 \<longrightarrow>
      save now s (t\<lparr>ticket_base_price := Some z\<rparr>) = save now s (t\<lparr>ticket_base_price := None\<rparr>)
      \<and> price s (t\<lparr>ticket_base_price := Some z\<rparr>) = price s (t\<lparr>ticket_base_price := None\<rparr>)"
    by (simp add: save_def price_def current_base_def base_truthy_def dec_truthy_def
        related_trip_def)
next
  show "\<not> base_truthy (ticket_base_price t) \<and> related_trip s t = Inr tr \<longrightarrow>
      current_base s t = Inr (dec_of_int (int (trip_price tr)))
      \<and> (\<forall>s' t'. save now s t = Inr (s', t') \<longrightarrow>
             ticket_base_price t' = Some (dec_of_int (int (trip_price tr))))"
  proof (intro impI conjI allI)
    assume h: "\<not> base_truthy (ticket_base_price t) \<and> related_trip s t = Inr tr"
    then show "current_base s t = Inr (dec_of_int (int (trip_price tr)))"
      by (simp add: current_base_def base_truthy_def and_then_def split: option.splits)
    fix s' t' assume "save now s t = Inr (s', t')"
    with h obtain p where
      "model_save now s (t\<lparr>ticket_base_price := Some (dec_of_int (int (trip_price tr))),
                           ticket_paid_amount := p\<rparr>) = (s', t')"
      by (auto simp: save_unfold and_then_Inr_iff Let_def)
    from model_save_fields(1) [OF this]
    show "ticket_base_price t' = Some (dec_of_int (int (trip_price tr)))" by simp
  qed
next
  show "ticket_base_price t = Some b \<and> coeff b \<noteq> 0 \<longrightarrow>
      current_base s t = Inr b
      \<and> (\<forall>s' t'. save now s t = Inr (s', t') \<longrightarrow> ticket_base_price t' = Some b)"
    by (auto simp: save_unfold current_base_def base_truthy_def dec_truthy_def and_then_Inr_iff
        dest!: model_save_fields(1))
qed

theorem C5_base_price_fallback_witness:
  "coeff \<lparr>coeff = 0, expo = - 2\<rparr> = 0
   \<and> save 5 ex_store ((ex_ticket 1)\<lparr>ticket_base_price := Some \<lparr>coeff = 0, expo = - 2\<rparr>\<rparr>)
       = save 5 ex_store ((ex_ticket 1)\<lparr>ticket_base_price := None\<rparr>)
   \<and> \<not> base_truthy (ticket_base_price (ex_ticket 1))
   \<and> related_trip ex_store (ex_ticket 1) = Inr ex_trip
   \<and> save 5 ex_store (ex_ticket 1) = Inr (ex_store_sold, ex_sold)
   \<and> ticket_base_price ex_sold = Some (dec_of_int (int (trip_price ex_trip)))
   \<and> coeff \<lparr>coeff = 5000, expo = - 2\<rparr> \<noteq> 0
   \<and> current_base ex_store ((ex_ticket 1)\<lparr>ticket_base_price := Some \<lparr>coeff = 5000, expo = - 2\<rparr>\<rparr>)
       = Inr \<lparr>coeff = 5000, expo = - 2\<rparr>"
proof -
  have z: "coeff \<lparr>coeff = 0, expo = - 2\<rparr> = 0" by simp
  have f: "\<not> base_truthy (ticket_base_price (ex_ticket 1))
      \<and> related_trip ex_store (ex_ticket 1) = Inr ex_trip"
    by (simp add: base_truthy_def related_trip_def get_by_id_def ex_defs)
  have n: "ticket_base_price ((ex_ticket 1)\<lparr>ticket_base_price := Some \<lparr>coeff = 5000, expo = - 2\<rparr>\<rparr>)
      = Some \<lparr>coeff = 5000, expo = - 2\<rparr> \<and> coeff \<lparr>coeff = 5000, expo = - 2\<rparr> \<noteq> 0"
    by simp
  note a = C5_base_price_fallback [where z = "\<lparr>coeff = 0, expo = - 2\<rparr>" and now = 5
      and s = ex_store and t = "ex_ticket 1" and tr = ex_trip]
  note b = C5_base_price_fallback [where s = ex_store and b = "\<lparr>coeff = 5000, expo = - 2\<rparr>"
      and t = "(ex_ticket 1)\<lparr>ticket_base_price := Some \<lparr>coeff = 5000, expo = - 2\<rparr>\<rparr>"]
  from a z have 1: "save 5 ex_store ((ex_ticket 1)\<lparr>ticket_base_price := Some \<lparr>coeff = 0, expo = - 2\<rparr>\<rparr>)
       = save 5 ex_store ((ex_ticket 1)\<lparr>ticket_base_price := None\<rparr>)" by blast
  from a f ex_save_first
  have 2: "ticket_base_price ex_sold = Some (dec_of_int (int (trip_price ex_trip)))" by blast
  from b n have 3: "current_base ex_store
      ((ex_ticket 1)\<lparr>ticket_base_price := Some \<lparr>coeff = 5000, expo = - 2\<rparr>\<rparr>)
       = Inr \<lparr>coeff = 5000, expo = - 2\<rparr>" by blast
  from z f n 1 2 3 ex_save_first show ?thesis by blast
qed

text \<open>
  C2. Whenever \<open>save\<close> succeeds, the stored \<open>paid_amount\<close> is the price of the ticket, it has
  two decimal places, and its value is the exact product of the resolved base price, the
  discount for the passenger's age and \<open>1 + TAX\<close>, rounded half to even to two places: no
  intermediate result was rounded. With the fare 100, a passenger of 10 pays 60.00, one
  of 70 pays 84.00 and one of 30 pays 120.00.
\<close>

theorem C2_price_stored:
  "(save now s t = Inr (s', t') \<longrightarrow>
      (\<exists>base p. current_base s t = Inr base \<and> related_passenger s t = Inr p
         \<and> price s t = Inr (ticket_paid_amount t')
         \<and> expo (ticket_paid_amount t') = - 2
         \<and> dec_val (ticket_paid_amount t')
             = round_2dp (dec_val base * dec_val (calculate_discount (int (passenger_age p)))
                          * (1 + dec_val TAX))
         \<and> t' \<in> set (tickets s')))
   \<and> price ex_store (ex_ticket 1) = Inr \<lparr>coeff = 6000, expo = - 2\<rparr>
   \<and> price ex_store (ex_ticket 3) = Inr \<lparr>coeff = 8400, expo = - 2\<rparr>
   \<and> price ex_store (ex_ticket 2) = Inr \<lparr>coeff = 12000, expo = - 2\<rparr>"
proof (intro conjI impI)
  assume a: "save now s t = Inr (s', t')"
  from save_success [OF a] obtain base p where
    b: "current_base s t = Inr base" "related_passenger s t = Inr p"
      "price s t = Inr (ticket_paid_amount t')"
      "decimal_validator 10 2 ''base_price'' base = []"
      "coeff base \<noteq> 0 \<or> expo base = 0" "t' \<in> set (tickets s')"
    by blast
  from price_exact [OF b(1,2,4,5)] b(3)
  have "expo (ticket_paid_amount t') = - 2
      \<and> dec_val (ticket_paid_amount t')
           = round_2dp (dec_val base * dec_val (calculate_discount (int (passenger_age p)))
                        * (1 + dec_val TAX))"
    by auto
  with b show "\<exists>base p. current_base s t = Inr base \<and> related_passenger s t = Inr p
         \<and> price s t = Inr (ticket_paid_amount t')
         \<and> expo (ticket_paid_amount t') = - 2
         \<and> dec_val (ticket_paid_amount t')
             = round_2dp (dec_val base * dec_val (calculate_discount (int (passenger_age p)))
                          * (1 + dec_val TAX))
         \<and> t' \<in> set (tickets s')"
    by blast
qed (rule ex_price_child ex_price_senior ex_price_adult_first)+

theorem C2_price_stored_witness:
  "save 5 ex_store (ex_ticket 1) = Inr (ex_store_sold, ex_sold)
   \<and> price ex_store (ex_ticket 1) = Inr (ticket_paid_amount ex_sold)
   \<and> ticket_paid_amount ex_sold = \<lparr>coeff = 6000, expo = - 2\<rparr>
   \<and> dec_val (ticket_paid_amount ex_sold) = 60
   \<and> ex_sold \<in> set (tickets ex_store_sold)"
proof -
  from C2_price_stored [of 5 ex_store "ex_ticket 1" ex_store_sold ex_sold] ex_save_first
  have "price ex_store (ex_ticket 1) = Inr (ticket_paid_amount ex_sold)
      \<and> ex_sold \<in> set (tickets ex_store_sold)"
    by blast
  moreover have "ticket_paid_amount ex_sold = \<lparr>coeff = 6000, expo = - 2\<rparr>"
    by (simp add: ex_sold_def)
  moreover have "dec_val (ticket_paid_amount ex_sold) = 60"
    by (simp add: ex_sold_def dec_val_def)
  ultimately show ?thesis using ex_save_first by blast
qed

text \<open>
  C4 as stated fails: a ticket sold for 60.00 to a passenger aged 10 is stored with 120.00
  once the passenger's age has been edited to 30 and the ticket is saved again, here to
  record the payment method.
\<close>

theorem C4_paid_amount_counterexample:
  "save 5 ex_store (ex_ticket 1) = Inr (ex_store_sold, ex_sold)
   \<and> update_passenger ex_store_sold 1 ex_grow_up = (ex_store_aged, Some (ex_grow_up ex_child))
   \<and> update_ticket 6 ex_store_aged 1 ex_pay_by_card
       = Inr (ex_store_aged\<lparr>tickets := [ex_resold]\<rparr>, Some ex_resold)
   \<and> ticket_pk ex_resold = ticket_pk ex_sold
   \<and> ticket_paid_amount ex_sold = \<lparr>coeff = 6000, expo = - 2\<rparr>
   \<and> ticket_paid_amount ex_resold = \<lparr>coeff = 12000, expo = - 2\<rparr>
   \<and> ticket_paid_amount ex_resold \<noteq> ticket_paid_amount ex_sold"
  using ex_save_first ex_update_passenger ex_update_ticket
  by (simp add: ex_resold_def ex_sold_def)

text \<open>
  C4, as the program has it. Editing a trip or a passenger, or deleting a cashier, changes
  no stored \<open>paid_amount\<close>, and saving a ticket leaves the rows of the other tickets as
  they are. But \<open>save\<close> makes no difference between a new and a stored ticket: every
  successful save of a ticket stores the price computed at that moment, from the base
  price of the ticket and the age its passenger has then.
\<close>

theorem C4_paid_amount_amended:
  "tickets (fst (update_trip s k f)) = tickets s
   \<and> tickets (fst (update_passenger s k g)) = tickets s
   \<and> map ticket_paid_amount (tickets (fst (delete_cashier s k)))
       = map ticket_paid_amount (tickets s)
   \<and> (save now s t = Inr (s', t') \<longrightarrow>
        price s t = Inr (ticket_paid_amount t') \<and> t' \<in> set (tickets s')
        \<and> (\<forall>r \<in> set (tickets s). ticket_pk r \<noteq> ticket_pk t \<longrightarrow> r \<in> set (tickets s')))"
proof (intro conjI impI ballI)
  show "tickets (fst (update_trip s k f)) = tickets s"
    by (simp add: update_trip_def split: option.splits)
  show "tickets (fst (update_passenger s k g)) = tickets s"
    by (simp add: update_passenger_def split: option.splits)
  show "map ticket_paid_amount (tickets (fst (delete_cashier s k)))
       = map ticket_paid_amount (tickets s)"
    by (simp add: delete_cashier_def split: option.splits)
next
  assume a: "save now s t = Inr (s', t')"
  from save_success [OF a]
  show "price s t = Inr (ticket_paid_amount t')" and "t' \<in> set (tickets s')" by blast+
  fix r assume "r \<in> set (tickets s)" "ticket_pk r \<noteq> ticket_pk t"
  with a show "r \<in> set (tickets s')" by (rule save_others)
qed

theorem C4_paid_amount_amended_witness:
  "save 6 ex_store_aged ex_sold
     = Inr (ex_store_aged\<lparr>tickets := [ex_sold\<lparr>ticket_paid_amount := \<lparr>coeff = 12000, expo = - 2\<rparr>\<rparr>]\<rparr>,
            ex_sold\<lparr>ticket_paid_amount := \<lparr>coeff = 12000, expo = - 2\<rparr>\<rparr>)
   \<and> price ex_store_aged ex_sold = Inr \<lparr>coeff = 12000, expo = - 2\<rparr>
   \<and> tickets (fst (update_passenger ex_store_sold 1 ex_grow_up)) = tickets ex_store_sold"
proof -
  note t = C4_paid_amount_amended [where s = ex_store_aged and now = 6 and t = ex_sold
      and s' = "ex_store_aged\<lparr>tickets := [ex_sold\<lparr>ticket_paid_amount := \<lparr>coeff = 12000, expo = - 2\<rparr>\<rparr>]\<rparr>"
      and t' = "ex_sold\<lparr>ticket_paid_amount := \<lparr>coeff = 12000, expo = - 2\<rparr>\<rparr>"]
  from t ex_save_aged
  have "price ex_store_aged ex_sold
      = Inr (ticket_paid_amount (ex_sold\<lparr>ticket_paid_amount := \<lparr>coeff = 12000, expo = - 2\<rparr>\<rparr>))"
    by blast
  then have "price ex_store_aged ex_sold = Inr \<lparr>coeff = 12000, expo = - 2\<rparr>" by simp
  moreover have "tickets (fst (update_passenger ex_store_sold 1 ex_grow_up)) = tickets ex_store_sold"
    using C4_paid_amount_amended [where s = ex_store_sold and k = 1 and g = ex_grow_up] by blast
  ultimately show ?thesis using ex_save_aged by blast
qed







text \<open>
  C8 as stated fails in its last part: nothing in the query guards the division. For a
  trip of capacity 0 the result is what the store makes of a division by zero: the rate
  of the trip is null on SQLite, and the whole report fails on a store that raises.
\<close>

theorem C8_trip_occupancy_counterexample:
  "trip_capacity ex_trip_closed = 0
   \<and> trips ex_closed_store = [ex_trip_closed]
   \<and> occupancy_rows False ex_closed_store = Inr [ex_occupancy_closed]
   \<and> trip_occupancy False False ex_closed_store (Inr [ex_occupancy_closed])
   \<and> occupancy_rate ex_occupancy_closed = None
   \<and> occupancy_rows True ex_closed_store = Inl DivisionByZero
   \<and> trip_occupancy True False ex_closed_store (Inl DivisionByZero)"
  using ex_closed_raises ex_closed_null
  by (simp add: trip_occupancy_def order_by_desc_def ex_closed_store_def ex_trip_closed_def
      ex_occupancy_closed_def)

text \<open>
  C8, as the program has it. With distinct primary keys of the trips, on a store that
  answers a division by zero with null the report has an answer, and every answer has one
  row for each trip, with the number of its tickets; the rate is null for a trip of
  capacity 0 and otherwise the double that the store computes: the count times the
  double 100.0, divided by the capacity, each result rounded to the nearest double. The
  rows descend by rate. On a store that raises, the report is the same when no trip has
  capacity 0, and fails with the store's division error when some trip has.
\<close>

theorem C8_trip_occupancy:
  assumes "distinct (map trip_pk (trips s))"
  shows "(\<exists>out. trip_occupancy False nf s (Inr out))
    \<and> (\<forall>res. trip_occupancy False nf s res \<longrightarrow>
          (\<exists>out. res = Inr out
             \<and> mset (map oc_trip out) = mset (trips s)
             \<and> (\<forall>r \<in> set out.
                   sold_count r = length (tickets_of_trip s (trip_pk (oc_trip r)))
                   \<and> occupancy_rate r
                       = (if trip_capacity (oc_trip r) = 0 then None
                          else Some (double_div
                                 (double_mul (double_of_int (int (sold_count r))) (double_of_int 100))
                                 (double_of_int (int (trip_capacity (oc_trip r)))))))
             \<and> sorted_wrt (\<lambda>a b. desc_before nf (map_option double_val (occupancy_rate a))
                                      (map_option double_val (occupancy_rate b))) out))
    \<and> ((\<forall>tr \<in> set (trips s). trip_capacity tr \<noteq> 0) \<longrightarrow>
          occupancy_rows True s = occupancy_rows False s
          \<and> (\<forall>res. trip_occupancy True nf s res \<longleftrightarrow> trip_occupancy False nf s res))
    \<and> ((\<exists>tr \<in> set (trips s). trip_capacity tr = 0) \<longrightarrow>
          occupancy_rows True s = Inl DivisionByZero
          \<and> (\<forall>res. trip_occupancy True nf s res \<longrightarrow> res = Inl DivisionByZero))"
proof -
  have d: "distinct (trips s)"
    using assms by (rule distinct_map [THEN iffD1, THEN conjunct1])
  define f where "f = (\<lambda>tr. \<lparr>oc_trip = tr, sold_count = length (tickets_of_trip s (trip_pk tr)),
      occupancy_rate =
        (if trip_capacity tr = 0 then None
         else Some (percentage (length (tickets_of_trip s (trip_pk tr))) (trip_capacity tr)))\<rparr>)"
  have rows: "occupancy_rows False s = Inr (map f (scan trip_pk (trips s)))"
    unfolding f_def by (rule occupancy_rows_null [OF d])
  note iff = trip_occupancy_Inr [OF rows]
  have ex: "\<exists>out. trip_occupancy False nf s (Inr out)"
    unfolding iff using order_by_desc_sort by blast
  have all: "\<exists>out. res = Inr out
             \<and> mset (map oc_trip out) = mset (trips s)
             \<and> (\<forall>r \<in> set out.
                   sold_count r = length (tickets_of_trip s (trip_pk (oc_trip r)))
                   \<and> occupancy_rate r
                       = (if trip_capacity (oc_trip r) = 0 then None
                          else Some (double_div
                                 (double_mul (double_of_int (int (sold_count r))) (double_of_int 100))
                                 (double_of_int (int (trip_capacity (oc_trip r)))))))
             \<and> sorted_wrt (\<lambda>a b. desc_before nf (map_option double_val (occupancy_rate a))
                                      (map_option double_val (occupancy_rate b))) out"
    if r: "trip_occupancy False nf s res" for res
  proof -
    from r [unfolded iff] obtain out where res: "res = Inr out"
      and o: "order_by_desc nf (\<lambda>r. map_option double_val (occupancy_rate r))
                (map f (scan trip_pk (trips s))) out"
      by (elim exE conjE)
    have "mset (map oc_trip out) = mset (scan trip_pk (trips s))"
      using o by (rule order_by_desc_map) (simp add: f_def)
    then have 1: "mset (map oc_trip out) = mset (trips s)" by simp
    have srt: "sorted_wrt (\<lambda>a b. desc_before nf (map_option double_val (occupancy_rate a))
                                      (map_option double_val (occupancy_rate b))) out"
      using o by (rule order_by_desc_sorted)
    have so: "set out = f ` set (trips s)"
      using order_by_desc_set [OF o] by simp
    have 2: "\<forall>r \<in> set out.
                   sold_count r = length (tickets_of_trip s (trip_pk (oc_trip r)))
                   \<and> occupancy_rate r
                       = (if trip_capacity (oc_trip r) = 0 then None
                          else Some (double_div
                                 (double_mul (double_of_int (int (sold_count r))) (double_of_int 100))
                                 (double_of_int (int (trip_capacity (oc_trip r))))))"
    proof
      fix r assume "r \<in> set out"
      with so obtain tr where "r = f tr" by blast
      then show "sold_count r = length (tickets_of_trip s (trip_pk (oc_trip r)))
                   \<and> occupancy_rate r
                       = (if trip_capacity (oc_trip r) = 0 then None
                          else Some (double_div
                                 (double_mul (double_of_int (int (sold_count r))) (double_of_int 100))
                                 (double_of_int (int (trip_capacity (oc_trip r))))))"
        by (simp only: f_def occupancy_row.simps percentage_def simp_thms)
    qed
    show ?thesis
      by (rule exI [of _ out]) (intro conjI res 1 2 srt)
  qed
  have open_eq: "occupancy_rows True s = occupancy_rows False s"
    if "\<forall>tr \<in> set (trips s). trip_capacity tr \<noteq> 0"
    by (simp only: occupancy_rows_open [OF d that])
  have closed: "occupancy_rows True s = Inl DivisionByZero"
    if "\<exists>tr \<in> set (trips s). trip_capacity tr = 0"
    using d that by (rule occupancy_rows_closed_raises)
  show ?thesis
  proof (intro conjI allI impI)
    show "\<exists>out. trip_occupancy False nf s (Inr out)" by (rule ex)
  next
    fix res assume "trip_occupancy False nf s res"
    then show "\<exists>out. res = Inr out
             \<and> mset (map oc_trip out) = mset (trips s)
             \<and> (\<forall>r \<in> set out.
                   sold_count r = length (tickets_of_trip s (trip_pk (oc_trip r)))
                   \<and> occupancy_rate r
                       = (if trip_capacity (oc_trip r) = 0 then None
                          else Some (double_div
                                 (double_mul (double_of_int (int (sold_count r))) (double_of_int 100))
                                 (double_of_int (int (trip_capacity (oc_trip r)))))))
             \<and> sorted_wrt (\<lambda>a b. desc_before nf (map_option double_val (occupancy_rate a))
                                      (map_option double_val (occupancy_rate b))) out"
      by (rule all)
  next
    assume op: "\<forall>tr \<in> set (trips s). trip_capacity tr \<noteq> 0"
    show "occupancy_rows True s = occupancy_rows False s" by (rule open_eq [OF op])
    fix res
    show "trip_occupancy True nf s res \<longleftrightarrow> trip_occupancy False nf s res"
      by (simp only: trip_occupancy_def open_eq [OF op])
  next
    assume cl: "\<exists>tr \<in> set (trips s). trip_capacity tr = 0"
    show "occupancy_rows True s = Inl DivisionByZero" by (rule closed [OF cl])
    fix res assume "trip_occupancy True nf s res"
    then show "res = Inl DivisionByZero"
      by (simp only: trip_occupancy_Inl [OF closed [OF cl]])
  qed
qed

theorem C8_trip_occupancy_witness:
  "distinct (map trip_pk (trips ex_report_store))
   \<and> trip_occupancy False False ex_report_store
        (Inr [ex_occupancy_1, ex_occupancy_2, ex_occupancy_3])
   \<and> mset (map oc_trip [ex_occupancy_1, ex_occupancy_2, ex_occupancy_3])
       = mset (trips ex_report_store)
   \<and> distinct (map trip_pk (trips ex_third_store))
   \<and> occupancy_rows False ex_third_store = Inr [ex_occupancy_third]
   \<and> occupancy_rows True ex_third_store = Inr [ex_occupancy_third]
   \<and> sold_count ex_occupancy_third = 1
   \<and> trip_capacity (oc_trip ex_occupancy_third) = 3
   \<and> map_option double_val (occupancy_rate ex_occupancy_third)
       = Some (4691249611844267 / 140737488355328)
   \<and> distinct (map trip_pk (trips ex_closed_store))
   \<and> trip_capacity ex_trip_closed = 0
   \<and> occupancy_rows True ex_closed_store = Inl DivisionByZero"
proof -
  from C8_trip_occupancy [OF ex_report_distinct, of False]
  have "\<forall>res. trip_occupancy False False ex_report_store res \<longrightarrow>
      (\<exists>out. res = Inr out \<and> mset (map oc_trip out) = mset (trips ex_report_store))"
    by blast
  from this [rule_format, OF ex_trip_occupancy [of False]]
  have 1: "mset (map oc_trip [ex_occupancy_1, ex_occupancy_2, ex_occupancy_3])
       = mset (trips ex_report_store)"
    by simp
  have dt: "distinct (map trip_pk (trips ex_third_store))"
    by (simp add: ex_third_store_def)
  have "\<forall>tr \<in> set (trips ex_third_store). trip_capacity tr \<noteq> 0"
    by (simp add: ex_third_store_def ex_trip_three_def)
  with C8_trip_occupancy [OF dt, of False]
  have "occupancy_rows True ex_third_store = occupancy_rows False ex_third_store" by blast
  then have 2: "occupancy_rows True ex_third_store = Inr [ex_occupancy_third]"
    by (simp only: ex_third_rows)
  have 3: "sold_count ex_occupancy_third = 1" "trip_capacity (oc_trip ex_occupancy_third) = 3"
    "map_option double_val (occupancy_rate ex_occupancy_third)
       = Some (4691249611844267 / 140737488355328)"
    by (simp_all add: ex_occupancy_third_def ex_trip_three_def ex_third_value)
  have dc: "distinct (map trip_pk (trips ex_closed_store))"
    by (simp add: ex_closed_store_def)
  have z: "trip_capacity ex_trip_closed = 0" by (simp add: ex_trip_closed_def)
  then have "\<exists>tr \<in> set (trips ex_closed_store). trip_capacity tr = 0"
    by (simp add: ex_closed_store_def)
  with C8_trip_occupancy [OF dc, of False]
  have 4: "occupancy_rows True ex_closed_store = Inl DivisionByZero" by blast
  show ?thesis
    by (intro conjI ex_report_distinct ex_trip_occupancy 1 dt ex_third_rows 2 3 dc z 4)
qed

end
